theory Spec2Isabelle
  imports Complex_Main "HOL-Library.Multiset"
begin

section \<open>Embedding of train\_fnri.py\<close>

text \<open>
  Python exceptions are values. Only the exceptions that the modelled lines of
  \<^verbatim>\<open>train_fnri.py\<close> can raise themselves are listed; \<open>ExternalError\<close> stands for
  anything raised inside a collaborator (encoder, decoder, logger, data loader).
\<close>

datatype py_error =
    ValueError
  | ZeroDivisionError
  | AttributeError
  | IndexError
  | TypeError
  | RuntimeError
  | ExternalError

subsection \<open>The epoch loop of \<^verbatim>\<open>main\<close> (lines 408--429)\<close>

text \<open>
  \<^verbatim>\<open>
  stop_early = 0
  for epoch in range(1, args.epochs+1):
      _ = train(...); val_loss, _ = test('val', ...); _, _ = test('test', ...)
      best_val_loss = logger.store(val_loss)
      stop_early = 0 if best_val_loss else stop_early+1
      if stop_early > args.patience:
          logger.info(...)
          break
  \<close>
  The three passes and the call of the checkpoint store make up the loop body. The body
  is a parameter: it takes the epoch number and the state of the world, and gives back
  the store's answer \<^verbatim>\<open>best_val_loss\<close> (or the exception that left the body) with the
  new state. The loop returns the list of the epochs it ran, each with the store's
  answer and the value of \<^verbatim>\<open>stop_early\<close> after its update, and how it was left.
\<close>

datatype loop_exit = Exhausted | StoppedEarly | Raised py_error

type_synonym 's epoch_body = "int \<Rightarrow> 's \<Rightarrow> (py_error + bool) \<times> 's"

type_synonym epoch_record = "int \<times> bool \<times> int"

fun epoch_loop ::
  "'s epoch_body \<Rightarrow> int \<Rightarrow> int \<Rightarrow> int list \<Rightarrow> 's \<Rightarrow> epoch_record list \<times> loop_exit \<times> 's"
where
  "epoch_loop body patience stop_early [] s = ([], Exhausted, s)"
| "epoch_loop body patience stop_early (epoch # rest) s =
     (case body epoch s of
        (Inl e, s') \<Rightarrow> ([], Raised e, s')
      | (Inr best_val_loss, s') \<Rightarrow>
          (let stop_early' = (if best_val_loss then 0 else stop_early + 1) in
           if stop_early' > patience
           then ([(epoch, best_val_loss, stop_early')], StoppedEarly, s')
           else (case epoch_loop body patience stop_early' rest s' of
                   (tr, ex, s'') \<Rightarrow> ((epoch, best_val_loss, stop_early') # tr, ex, s''))))"

text \<open>\<^verbatim>\<open>range(1, args.epochs+1)\<close>: empty when \<^verbatim>\<open>args.epochs\<close> is below 1.\<close>

definition epoch_range :: "int \<Rightarrow> int list" where
  "epoch_range epochs = [1..epochs]"

definition train_epochs ::
  "'s epoch_body \<Rightarrow> int \<Rightarrow> int \<Rightarrow> 's \<Rightarrow> epoch_record list \<times> loop_exit \<times> 's"
where
  "train_epochs body patience epochs s = epoch_loop body patience 0 (epoch_range epochs) s"






subsection \<open>The edge-type partition at startup (\<^verbatim>\<open>main\<close>, lines 326--331)\<close>

text \<open>
  \<^verbatim>\<open>
  args.edge_types_list = list(map(int, args.edge_types_list))
  args.edge_types_list.sort(reverse=True)
  if all((isinstance(k, int) and k >= 1) for k in args.edge_types_list):
      args.edge_types = sum(args.edge_types_list)
  else:
      raise ValueError('Could not compute the edge-types-list')
  \<close>
  The option \<^verbatim>\<open>--edge-types-list\<close> has \<^verbatim>\<open>nargs='+'\<close> and no \<^verbatim>\<open>type\<close>: its entries are
  the strings of the command line, or the integers of the default \<^verbatim>\<open>[2, 2, 2]\<close>.
  Python's \<^verbatim>\<open>int\<close> on a string is a builtin, taken as a parameter \<open>int_of_str\<close>
  that answers \<open>None\<close> where \<^verbatim>\<open>int\<close> raises \<^verbatim>\<open>ValueError\<close>.
\<close>

datatype cli_value = PyInt int | PyStr string

definition py_int :: "(string \<Rightarrow> int option) \<Rightarrow> cli_value \<Rightarrow> py_error + int" where
  "py_int int_of_str v =
     (case v of
        PyInt k \<Rightarrow> Inr k
      | PyStr s \<Rightarrow> (case int_of_str s of None \<Rightarrow> Inl ValueError | Some k \<Rightarrow> Inr k))"

text \<open>\<^verbatim>\<open>list(map(int, xs))\<close>: the first entry that does not convert raises.\<close>

fun map_int :: "(string \<Rightarrow> int option) \<Rightarrow> cli_value list \<Rightarrow> py_error + int list" where
  "map_int int_of_str [] = Inr []"
| "map_int int_of_str (v # vs) =
     (case py_int int_of_str v of
        Inl e \<Rightarrow> Inl e
      | Inr k \<Rightarrow> (case map_int int_of_str vs of Inl e \<Rightarrow> Inl e | Inr ks \<Rightarrow> Inr (k # ks)))"

text \<open>\<^verbatim>\<open>xs.sort(reverse=True)\<close> on integers.\<close>

definition sort_reverse :: "int list \<Rightarrow> int list" where
  "sort_reverse ks = rev (sort ks)"

text \<open>
  The result is the new \<^verbatim>\<open>args.edge_types_list\<close> with the new \<^verbatim>\<open>args.edge_types\<close>.
  After \<^verbatim>\<open>map(int, ...)\<close> every entry is an \<^verbatim>\<open>int\<close>, so the test that is left of
  \<^verbatim>\<open>isinstance(k, int) and k >= 1\<close> is \<open>k \<ge> 1\<close>.
\<close>

definition startup_partition ::
  "(string \<Rightarrow> int option) \<Rightarrow> cli_value list \<Rightarrow> py_error + (int list \<times> int)"
where
  "startup_partition int_of_str raw =
     (case map_int int_of_str raw of
        Inl e \<Rightarrow> Inl e
      | Inr ks \<Rightarrow>
          (let edge_types_list = sort_reverse ks in
           if list_all (\<lambda>k. k \<ge> 1) edge_types_list
           then Inr (edge_types_list, sum_list edge_types_list)
           else Inl ValueError))"


text \<open>The integer an entry stands for, where it converts.\<close>

definition entry_value :: "(string \<Rightarrow> int option) \<Rightarrow> cli_value \<Rightarrow> int" where
  "entry_value int_of_str v = (case py_int int_of_str v of Inl e \<Rightarrow> 0 | Inr k \<Rightarrow> k)"

text \<open>A reader of decimal digit strings of one digit, enough to run the startup on examples.\<close>

definition one_digit :: "string \<Rightarrow> int option" where
  "one_digit s =
     (if s = ''0'' then Some 0 else if s = ''1'' then Some 1 else if s = ''2'' then Some 2
      else if s = ''3'' then Some 3 else None)"

subsection \<open>The sparsity prior (\<^verbatim>\<open>main\<close>, lines 379--397)\<close>

text \<open>
  \<^verbatim>\<open>
  prior_et = np.zeros(args.edge_types_list[0])
  prior_et[0] = 0.9
  prior_et[1:] = 0.1 / (args.edge_types_list[0]-1)
  prior = [prior_et] * len(args.edge_types_list)
  if not all(prior[i].size == args.edge_types_list[i] for i in range(len(args.edge_types_list))):
      raise ValueError('Prior is incompatable with the edge types list')
  \<close>
  The partition has passed the startup check here, so its entries are naturals. The
  right-hand side of line 383 is a division of Python numbers and is evaluated before
  the assignment: it raises \<^verbatim>\<open>ZeroDivisionError\<close> when the first entry is 1.
\<close>

definition build_prior :: "nat list \<Rightarrow> py_error + real list list" where
  "build_prior edge_types_list =
     (case edge_types_list of
        [] \<Rightarrow> Inl IndexError
      | n0 # _ \<Rightarrow>
          if n0 = 0 then Inl IndexError
          else if n0 - 1 = 0 then Inl ZeroDivisionError
          else
            (let prior_et = (9 / 10) # replicate (n0 - 1) ((1 / 10) / real (n0 - 1));
                 prior = replicate (length edge_types_list) prior_et
             in if \<not> list_all (\<lambda>i. length (prior ! i) = edge_types_list ! i)
                         [0..<length edge_types_list]
                then Inl ValueError
                else Inr prior))"

text \<open>
  Lines 379--397: \<^verbatim>\<open>log_prior\<close> stays \<^verbatim>\<open>None\<close> unless \<^verbatim>\<open>args.prior\<close> is set. numpy's
  logarithm \<^verbatim>\<open>np.log\<close> is a parameter.
\<close>

definition build_log_prior ::
  "(real \<Rightarrow> real) \<Rightarrow> bool \<Rightarrow> nat list \<Rightarrow> py_error + real list list option"
where
  "build_log_prior np_log prior_flag edge_types_list =
     (if prior_flag
      then (case build_prior edge_types_list of
              Inl e \<Rightarrow> Inl e
            | Inr prior \<Rightarrow> Inr (Some (map (map np_log) prior)))
      else Inr None)"

subsection \<open>Tensors\<close>

text \<open>
  A tensor is its shape with its entries, the entries as a function of the indices
  (what the function says outside the shape does not matter). Entries are real
  numbers: the rounding of floating-point arithmetic is left out, and the one place of
  the program where a division by zero produces a non-number (the division by the
  sample count at the end of a posterior pass) has a result type of its own.
\<close>

record tensor2 =
  rows2 :: nat
  cols2 :: nat
  at2 :: "nat \<Rightarrow> nat \<Rightarrow> real"

record tensor3 =
  dim0 :: nat
  dim1 :: nat
  dim2 :: nat
  at3 :: "nat \<Rightarrow> nat \<Rightarrow> nat \<Rightarrow> real"

text \<open>\<^verbatim>\<open>torch.zeros(rows, cols)\<close>\<close>

definition zeros :: "nat \<Rightarrow> nat \<Rightarrow> tensor2" where
  "zeros rows cols = \<lparr>rows2 = rows, cols2 = cols, at2 = (\<lambda>i j. 0)\<rparr>"

text \<open>
  Broadcasting, as torch does it for \<^verbatim>\<open>a + b\<close>: two sizes of an axis go together when
  they are equal or one of them is 1; the axis of size 1 is then read at index 0 for
  every index of the other.
\<close>

definition broadcastable :: "nat \<Rightarrow> nat \<Rightarrow> bool" where
  "broadcastable m n = (m = n \<or> m = 1 \<or> n = 1)"

definition broadcast_size :: "nat \<Rightarrow> nat \<Rightarrow> nat" where
  "broadcast_size m n = (if m = 1 then n else m)"

definition broadcast_index :: "nat \<Rightarrow> nat \<Rightarrow> nat" where
  "broadcast_index m i = (if m = 1 then 0 else i)"

text \<open>
  \<^verbatim>\<open>a + b\<close> of two tensors of two axes: \<^verbatim>\<open>RuntimeError\<close> when the shapes do not go
  together.
\<close>

definition tensor_add :: "tensor2 \<Rightarrow> tensor2 \<Rightarrow> py_error + tensor2" where
  "tensor_add a b =
     (if broadcastable (rows2 a) (rows2 b) \<and> broadcastable (cols2 a) (cols2 b)
      then Inr \<lparr>rows2 = broadcast_size (rows2 a) (rows2 b),
                cols2 = broadcast_size (cols2 a) (cols2 b),
                at2 = (\<lambda>i j. at2 a (broadcast_index (rows2 a) i) (broadcast_index (cols2 a) j)
                             + at2 b (broadcast_index (rows2 b) i) (broadcast_index (cols2 b) j))\<rparr>
      else Inl RuntimeError)"

text \<open>
  \<^verbatim>\<open>edges.sum(0)\<close> for \<open>edges\<close> of shape [batch, rows, cols]: the sum of the samples, of
  the shape [rows, cols] of a sample.
\<close>

definition sum_dim0 :: "tensor3 \<Rightarrow> tensor2" where
  "sum_dim0 t =
     \<lparr>rows2 = dim1 t, cols2 = dim2 t, at2 = (\<lambda>i j. \<Sum>s<dim0 t. at3 t s i j)\<rparr>"

text \<open>
  The value of a float tensor entry divided by a Python integer: division by zero does
  not raise in torch, it gives a NaN for 0/0 and an infinity otherwise.
\<close>

datatype fval = Fin real | PosInf | NegInf | NaN

definition div_count :: "real \<Rightarrow> nat \<Rightarrow> fval" where
  "div_count x n =
     (if n = 0 then (if x = 0 then NaN else if x > 0 then PosInf else NegInf)
      else Fin (x / real n))"

text \<open>
  \<^verbatim>\<open>t / n\<close>, as the list of the rows of the result, which is what the log file and the
  generator read.
\<close>

definition tensor_div :: "tensor2 \<Rightarrow> nat \<Rightarrow> fval list list" where
  "tensor_div t n =
     map (\<lambda>i. map (\<lambda>j. div_count (at2 t i j) n) [0..<cols2 t]) [0..<rows2 t]"

text \<open>
  \<^verbatim>\<open>torch.split(t, sizes, dim=-1)\<close>: the chunks lie side by side, chunk \<open>k\<close> starting at
  the sum of the sizes before it. torch raises when the sizes do not add up to the
  length of the last axis.
\<close>

fun offsets :: "nat list \<Rightarrow> nat list" where
  "offsets [] = []"
| "offsets (n # ns) = 0 # map ((+) n) (offsets ns)"

definition chunk :: "nat \<Rightarrow> nat \<Rightarrow> tensor3 \<Rightarrow> tensor3" where
  "chunk off n t =
     \<lparr>dim0 = dim0 t, dim1 = dim1 t, dim2 = n, at3 = (\<lambda>s i j. at3 t s i (off + j))\<rparr>"

definition split_last :: "nat list \<Rightarrow> tensor3 \<Rightarrow> py_error + tensor3 list" where
  "split_last sizes t =
     (if dim2 t = sum_list sizes
      then Inr (map (\<lambda>(off, n). chunk off n t) (zip (offsets sizes) sizes))
      else Inl RuntimeError)"

text \<open>
  \<^verbatim>\<open>torch.cat(ts, dim=-1)\<close>: torch raises on an empty sequence and on tensors that differ
  in another axis.
\<close>

definition cat2 :: "tensor3 \<Rightarrow> tensor3 \<Rightarrow> tensor3" where
  "cat2 t r =
     \<lparr>dim0 = dim0 t, dim1 = dim1 t, dim2 = dim2 t + dim2 r,
      at3 = (\<lambda>s i j. if j < dim2 t then at3 t s i j else at3 r s i (j - dim2 t))\<rparr>"

fun cat_last :: "tensor3 list \<Rightarrow> py_error + tensor3" where
  "cat_last [] = Inl RuntimeError"
| "cat_last [t] = Inr t"
| "cat_last (t # ts) =
     (case cat_last ts of
        Inl e \<Rightarrow> Inl e
      | Inr r \<Rightarrow> if dim0 t = dim0 r \<and> dim1 t = dim1 r then Inr (cat2 t r) else Inl RuntimeError)"

text \<open>
  \<^verbatim>\<open>torch.Tensor(edges)\<close> for the array \<^verbatim>\<open>edges\<close> that \<^verbatim>\<open>np.zeros((batch, rows, cols))\<close>
  made and the generator filled: the nested list of its entries, with its shape.
\<close>

definition tensor_of_lists :: "nat \<Rightarrow> nat \<Rightarrow> real list list list \<Rightarrow> tensor3" where
  "tensor_of_lists rows cols xs =
     \<lparr>dim0 = length xs, dim1 = rows, dim2 = cols, at3 = (\<lambda>s i j. xs ! s ! i ! j)\<rparr>"

subsection \<open>Configuration, collaborators and state\<close>

text \<open>
  The fields of \<^verbatim>\<open>args\<close> that the modelled code reads. The partition and the edge-type
  count are those that the startup check has accepted, hence naturals.
\<close>

record arguments =
  num_atoms :: int
  edge_types :: nat
  edge_types_list :: "nat list"
  prior :: bool
  beta :: real
  mse_loss :: bool
  patience :: int
  epochs :: int
  cond_hidden :: bool
  cond_msgs :: bool
  conditional :: bool

text \<open>
  The collaborators of \<^verbatim>\<open>utils\<close>, \<^verbatim>\<open>modules\<close>, torch, numpy and the logger are not part of
  this file; each is a parameter, and each is taken to return. \<open>'p\<close> are the encoder and
  decoder parameters, \<open>'g\<close> their gradient buffers, \<open>'o\<close> the optimizer with its
  scheduler, \<open>'w\<close> the rest of the world (random sources, logger, files, train/eval
  flags), \<open>'b\<close> a batch (trajectories and clinical features), \<open>'y\<close> a decoder output.
  The settings that a call takes from \<^verbatim>\<open>args\<close> and passes on unchanged (temperature,
  variance, device) are part of the collaborator.
\<close>

record ('p, 'g, 'o, 'w, 'b, 'y) externals =
  int_of_str :: "string \<Rightarrow> int option"
  np_log :: "real \<Rightarrow> real"
  construct :: "arguments \<Rightarrow> 'w \<Rightarrow> ('p \<times> 'g \<times> 'o) \<times> 'w"
  encoder :: "'p \<Rightarrow> 'b \<Rightarrow> 'w \<Rightarrow> tensor3 \<times> 'w"
  gumbel_softmax :: "tensor3 \<Rightarrow> 'w \<Rightarrow> tensor3 \<times> 'w"
  my_softmax :: "tensor3 \<Rightarrow> tensor3"
  kl_categorical :: "tensor3 \<Rightarrow> real list \<Rightarrow> int \<Rightarrow> real"
  kl_categorical_uniform :: "tensor3 \<Rightarrow> int \<Rightarrow> nat \<Rightarrow> real"
  KL_between_blocks :: "tensor3 list \<Rightarrow> int \<Rightarrow> real list"
  decoder :: "'p \<Rightarrow> 'b \<Rightarrow> tensor3 \<Rightarrow> 'w \<Rightarrow> 'y \<times> 'w"
  nll_gaussian :: "'y \<Rightarrow> 'b \<Rightarrow> real"
  F_mse_loss :: "'y \<Rightarrow> 'b \<Rightarrow> real"
  size0 :: "'b \<Rightarrow> nat"
  zero_grad :: "'g \<Rightarrow> 'g"
  backward :: "'p \<Rightarrow> 'b \<Rightarrow> 'w \<Rightarrow> real \<Rightarrow> 'g \<Rightarrow> 'g"
  clip_grad_norm :: "'g \<Rightarrow> 'g"
  optimizer_step :: "'o \<Rightarrow> 'p \<Rightarrow> 'g \<Rightarrow> 'o \<times> 'p"
  scheduler_step :: "'o \<Rightarrow> 'o"
  set_training :: "bool \<Rightarrow> 'w \<Rightarrow> 'w"
  register_plots :: "real list \<Rightarrow> int option \<Rightarrow> string \<Rightarrow> 'w \<Rightarrow> real list \<times> 'w"
  store :: "real list \<Rightarrow> 'p \<Rightarrow> 'o \<Rightarrow> 'w \<Rightarrow> bool \<times> 'w"
  restore_best :: "'p \<Rightarrow> 'o \<Rightarrow> 'w \<Rightarrow> 'p \<times> 'o \<times> 'w"
  write_posterior :: "fval list \<Rightarrow> 'w \<Rightarrow> 'w"
  choice :: "nat \<Rightarrow> fval list \<Rightarrow> 'w \<Rightarrow> (py_error + nat) \<times> 'w"
  add_scalar :: "real \<Rightarrow> nat \<Rightarrow> 'w \<Rightarrow> 'w"
  save_outputs :: "'y list \<Rightarrow> 'w \<Rightarrow> 'w"

text \<open>
  The mutable objects a pass can reach: the \<^verbatim>\<open>args\<close> namespace, the parameters of the
  two networks with their gradients, the optimizer, and the world.
\<close>

record ('p, 'g, 'o, 'w) machine =
  args :: arguments
  params :: 'p
  grads :: 'g
  optim :: 'o
  world :: 'w

text \<open>The dictionary \<^verbatim>\<open>history\<close> of \<^verbatim>\<open>run\<close>: six fixed keys, each a list.\<close>

record history =
  h_mse :: "real list"
  h_nll :: "real list"
  h_kl :: "real list"
  h_loss :: "real list"
  h_KLb_train :: "real list"
  h_KLb_blocks :: "real list list"

definition empty_history :: history where
  "empty_history =
     \<lparr>h_mse = [], h_nll = [], h_kl = [], h_loss = [], h_KLb_train = [], h_KLb_blocks = []\<rparr>"

subsection \<open>The objective of one batch (\<^verbatim>\<open>run\<close>, lines 147--187)\<close>

text \<open>\<^verbatim>\<open>np.isclose(a, b, rtol, atol)\<close> on finite numbers: \<open>|a - b| \<le> atol + rtol * |b|\<close>.\<close>

definition np_isclose :: "real \<Rightarrow> real \<Rightarrow> real \<Rightarrow> real \<Rightarrow> bool" where
  "np_isclose a b rtol atol = (\<bar>a - b\<bar> \<le> atol + rtol * \<bar>b\<bar>)"

text \<open>
  \<^verbatim>\<open>
  if not np.isclose(args.beta, 0, rtol=1e-6):
      loss_kl = args.beta*loss_kl
  \<close>
  with numpy's default \<^verbatim>\<open>atol=1e-8\<close>.
\<close>

definition scale_kl :: "real \<Rightarrow> real \<Rightarrow> real" where
  "scale_kl beta_factor loss_kl =
     (if \<not> np_isclose beta_factor 0 (1 / 10 ^ 6) (1 / 10 ^ 8) then beta_factor * loss_kl
      else loss_kl)"

text \<open>\<^verbatim>\<open>loss = loss_mse if args.mse_loss else loss_nll + loss_kl\<close>\<close>

definition select_loss :: "bool \<Rightarrow> real \<Rightarrow> real \<Rightarrow> real \<Rightarrow> real" where
  "select_loss use_mse loss_mse loss_nll loss_kl = (if use_mse then loss_mse else loss_nll + loss_kl)"

text \<open>Lines 180--187 together: from the three terms of a batch to its optimized loss.\<close>

definition optimized_loss :: "arguments \<Rightarrow> real \<Rightarrow> real \<Rightarrow> real \<Rightarrow> real" where
  "optimized_loss a loss_nll loss_kl loss_mse =
     select_loss (mse_loss a) loss_mse loss_nll (scale_kl (beta a) loss_kl)"

text \<open>
  \<^verbatim>\<open>[gumbel_softmax(logits_i, ...) for logits_i in logits_split]\<close>: one call per factor,
  in order, each drawing from the random source.
\<close>

fun sample_each :: "(tensor3 \<Rightarrow> 'w \<Rightarrow> tensor3 \<times> 'w) \<Rightarrow> tensor3 list \<Rightarrow> 'w \<Rightarrow> tensor3 list \<times> 'w" where
  "sample_each g [] w = ([], w)"
| "sample_each g (t # ts) w =
     (case g t w of
        (e, w1) \<Rightarrow> (case sample_each g ts w1 of (es, w2) \<Rightarrow> (e # es, w2)))"

text \<open>
  Lines 157--165. With the prior switched on, \<^verbatim>\<open>log_prior[type_idx]\<close> is read: a
  \<^verbatim>\<open>TypeError\<close> when \<^verbatim>\<open>log_prior\<close> is \<^verbatim>\<open>None\<close>. The variance terms of lines 167--169 are
  computed and never used; they are left out.
\<close>

definition kl_terms ::
  "('p, 'g, 'o, 'w, 'b, 'y) externals \<Rightarrow> arguments \<Rightarrow> real list list option \<Rightarrow> tensor3 list
     \<Rightarrow> py_error + real list"
where
  "kl_terms ext a log_prior prob_split =
     (if length prob_split < length (edge_types_list a) then Inl IndexError
      else if prior a then
        (case log_prior of
           None \<Rightarrow> Inl TypeError
         | Some lp \<Rightarrow>
             if length lp < length (edge_types_list a) then Inl IndexError
             else Inr (map (\<lambda>type_idx. kl_categorical ext (prob_split ! type_idx) (lp ! type_idx)
                                         (num_atoms a))
                           [0..<length (edge_types_list a)]))
      else Inr (map (\<lambda>type_idx. kl_categorical_uniform ext (prob_split ! type_idx) (num_atoms a)
                                   (edge_types_list a ! type_idx))
                    [0..<length (edge_types_list a)]))"

text \<open>What one batch contributes: the edge tensor and the scalars that are logged.\<close>

record batch_out =
  b_edges :: tensor3
  b_loss :: real
  b_mse :: real
  b_nll :: real
  b_kl :: real
  b_KLb_blocks :: "real list"

text \<open>
  Lines 147--187. \<^verbatim>\<open>sum(KLb_blocks).data\<close> raises \<^verbatim>\<open>AttributeError\<close> when the list is
  empty, since \<^verbatim>\<open>sum([])\<close> is the integer 0. The same would hold of \<^verbatim>\<open>loss_kl.item()\<close>
  for an empty partition, but \<^verbatim>\<open>torch.cat\<close> has raised by then.
\<close>

definition forward_batch ::
  "('p, 'g, 'o, 'w, 'b, 'y) externals \<Rightarrow> arguments \<Rightarrow> real list list option \<Rightarrow> 'p \<Rightarrow> 'b \<Rightarrow> 'w
     \<Rightarrow> (py_error + batch_out) \<times> 'w"
where
  "forward_batch ext a log_prior p b w =
     (case encoder ext p b w of
        (logits, w1) \<Rightarrow>
          (case split_last (edge_types_list a) logits of
             Inl e \<Rightarrow> (Inl e, w1)
           | Inr logits_split \<Rightarrow>
               (case sample_each (gumbel_softmax ext) logits_split w1 of
                  (edges_split, w2) \<Rightarrow>
                    (case cat_last edges_split of
                       Inl e \<Rightarrow> (Inl e, w2)
                     | Inr edges \<Rightarrow>
                         (let prob_split = map (my_softmax ext) logits_split in
                          case kl_terms ext a log_prior prob_split of
                            Inl e \<Rightarrow> (Inl e, w2)
                          | Inr loss_kl_split \<Rightarrow>
                              (let loss_kl = sum_list loss_kl_split;
                                   KLb_blocks = KL_between_blocks ext prob_split (num_atoms a)
                               in if KLb_blocks = [] then (Inl AttributeError, w2)
                                  else
                                    (case decoder ext p b edges w2 of
                                       (output, w3) \<Rightarrow>
                                         (let loss_nll = nll_gaussian ext output b;
                                              loss_mse = F_mse_loss ext output b
                                          in (Inr \<lparr>b_edges = edges,
                                                   b_loss = optimized_loss a loss_nll loss_kl loss_mse,
                                                   b_mse = loss_mse,
                                                   b_nll = loss_nll,
                                                   b_kl = scale_kl (beta a) loss_kl,
                                                   b_KLb_blocks = KLb_blocks\<rparr>, w3)))))))))"

subsection \<open>One pass over a data loader (\<^verbatim>\<open>run\<close>, lines 129--206)\<close>

text \<open>
  The locals of \<^verbatim>\<open>run\<close> with the objects it can reach. \<^verbatim>\<open>aggr_posterior\<close> and
  \<^verbatim>\<open>n_samples\<close> are bound in mode \<^verbatim>\<open>'post'\<close> only and read in that mode only; here
  they are present in every mode and touched in that mode only.
\<close>

record ('p, 'g, 'o, 'w) loop_state =
  hist :: history
  aggr_posterior :: tensor2
  n_samples :: nat
  mach :: "('p, 'g, 'o, 'w) machine"

text \<open>\<^verbatim>\<open>(args.num_atoms**2)-args.num_atoms\<close>, which no integer makes negative.\<close>

definition num_pairs :: "arguments \<Rightarrow> nat" where
  "num_pairs a = nat ((num_atoms a)\<^sup>2 - num_atoms a)"

text \<open>
  Lines 189--193: \<^verbatim>\<open>loss.backward()\<close>, the clipping of the gradient norm and
  \<^verbatim>\<open>optimizer.step()\<close>. The gradient of the loss depends on the parameters, the batch
  and the noise drawn in the forward pass, that is the world \<open>w0\<close> the pass started from.
\<close>

definition train_step ::
  "('p, 'g, 'o, 'w, 'b, 'y) externals \<Rightarrow> 'b \<Rightarrow> 'w \<Rightarrow> real \<Rightarrow> ('p, 'g, 'o, 'w) machine
     \<Rightarrow> ('p, 'g, 'o, 'w) machine"
where
  "train_step ext b w0 loss m =
     (let g = clip_grad_norm ext (backward ext (params m) b w0 loss (grads m)) in
      case optimizer_step ext (optim m) (params m) g of
        (opt, p) \<Rightarrow> m\<lparr>params := p, grads := g, optim := opt\<rparr>)"

text \<open>Lines 172--173 and 198--201: one value for each key.\<close>

definition append_history :: "batch_out \<Rightarrow> history \<Rightarrow> history" where
  "append_history out h =
     \<lparr>h_mse = h_mse h @ [b_mse out],
      h_nll = h_nll h @ [b_nll out],
      h_kl = h_kl h @ [b_kl out],
      h_loss = h_loss h @ [b_loss out],
      h_KLb_train = h_KLb_train h @ [sum_list (b_KLb_blocks out)],
      h_KLb_blocks = h_KLb_blocks h @ [b_KLb_blocks out]\<rparr>"

text \<open>
  The body of the loop of line 139 for one batch. \<open>optimizer\<close> tells whether the
  \<^verbatim>\<open>optimizer\<close> argument is the optimizer of \<^verbatim>\<open>main\<close> or \<^verbatim>\<open>None\<close>, as \<^verbatim>\<open>test\<close> passes it:
  \<^verbatim>\<open>None.zero_grad()\<close> raises. In mode \<^verbatim>\<open>'post'\<close> the sum of line 195 raises when
  the shapes do not go together. The result is the exception that left the body, if
  any, and the state; an exception leaves the objects as they are at that point.
\<close>

definition run_batch ::
  "('p, 'g, 'o, 'w, 'b, 'y) externals \<Rightarrow> string \<Rightarrow> bool \<Rightarrow> real list list option \<Rightarrow> 'b
     \<Rightarrow> ('p, 'g, 'o, 'w) loop_state \<Rightarrow> py_error option \<times> ('p, 'g, 'o, 'w) loop_state"
where
  "run_batch ext mode optimizer log_prior b ls =
     (let m = mach ls; a = args m in
      if mode = ''train'' \<and> \<not> optimizer then (Some AttributeError, ls)
      else
        (let m1 = (if mode = ''train'' then m\<lparr>grads := zero_grad ext (grads m)\<rparr> else m) in
         case forward_batch ext a log_prior (params m1) b (world m1) of
           (Inl e, w) \<Rightarrow> (Some e, ls\<lparr>mach := m1\<lparr>world := w\<rparr>\<rparr>)
         | (Inr out, w) \<Rightarrow>
             (let m2 = m1\<lparr>world := w\<rparr>;
                  m3 = (if mode = ''train'' then train_step ext b (world m1) (b_loss out) m2
                        else m2)
              in if mode = ''post''
                 then (case tensor_add (aggr_posterior ls) (sum_dim0 (b_edges out)) of
                         Inl e \<Rightarrow> (Some e, ls\<lparr>mach := m3\<rparr>)
                       | Inr aggr \<Rightarrow>
                           (None,
                            \<lparr>hist = append_history out (hist ls),
                             aggr_posterior = aggr,
                             n_samples = n_samples ls + size0 ext b,
                             mach = m3\<rparr>))
                 else (None,
                       \<lparr>hist = append_history out (hist ls),
                        aggr_posterior = aggr_posterior ls,
                        n_samples = n_samples ls,
                        mach = m3\<rparr>))))"

text \<open>The loop of line 139: the batches in the order the loader yields them.\<close>

fun run_loop ::
  "('p, 'g, 'o, 'w, 'b, 'y) externals \<Rightarrow> string \<Rightarrow> bool \<Rightarrow> real list list option \<Rightarrow> 'b list
     \<Rightarrow> ('p, 'g, 'o, 'w) loop_state \<Rightarrow> py_error option \<times> ('p, 'g, 'o, 'w) loop_state"
where
  "run_loop ext mode optimizer log_prior [] ls = (None, ls)"
| "run_loop ext mode optimizer log_prior (b # bs) ls =
     (case run_batch ext mode optimizer log_prior b ls of
        (Some e, ls1) \<Rightarrow> (Some e, ls1)
      | (None, ls1) \<Rightarrow> run_loop ext mode optimizer log_prior bs ls1)"

definition initial_loop_state :: "('p, 'g, 'o, 'w) machine \<Rightarrow> ('p, 'g, 'o, 'w) loop_state" where
  "initial_loop_state m =
     \<lparr>hist = empty_history,
      aggr_posterior = zeros (num_pairs (args m)) (edge_types (args m)),
      n_samples = 0,
      mach = m\<rparr>"

text \<open>
  \<^verbatim>\<open>run\<close>: \<^verbatim>\<open>(None, aggr_posterior/n_samples)\<close> in mode \<^verbatim>\<open>'post'\<close>, \<^verbatim>\<open>(history, None)\<close>
  otherwise.
\<close>

type_synonym run_result = "history option \<times> fval list list option"

definition run ::
  "('p, 'g, 'o, 'w, 'b, 'y) externals \<Rightarrow> string \<Rightarrow> 'b list \<Rightarrow> bool \<Rightarrow> real list list option
     \<Rightarrow> ('p, 'g, 'o, 'w) machine \<Rightarrow> (py_error + run_result) \<times> ('p, 'g, 'o, 'w) machine"
where
  "run ext mode data_loader optimizer log_prior m =
     (case run_loop ext mode optimizer log_prior data_loader (initial_loop_state m) of
        (Some e, ls) \<Rightarrow> (Inl e, mach ls)
      | (None, ls) \<Rightarrow>
          if mode = ''post''
          then (Inr (None, Some (tensor_div (aggr_posterior ls) (n_samples ls))), mach ls)
          else (Inr (Some (hist ls), None), mach ls))"

subsection \<open>\<^verbatim>\<open>train\<close> and \<^verbatim>\<open>test\<close> (lines 209--236)\<close>

text \<open>
  \<^verbatim>\<open>train\<close> switches both networks to training mode, runs a pass with the optimizer,
  steps the scheduler, hands the history to the logger and returns the \<^verbatim>\<open>'loss'\<close>
  entry of what the logger gives back. Of the history only that entry is followed
  through \<^verbatim>\<open>register_plots\<close>.
\<close>

definition train ::
  "('p, 'g, 'o, 'w, 'b, 'y) externals \<Rightarrow> int \<Rightarrow> 'b list \<Rightarrow> real list list option
     \<Rightarrow> ('p, 'g, 'o, 'w) machine \<Rightarrow> (py_error + real list) \<times> ('p, 'g, 'o, 'w) machine"
where
  "train ext epoch data_loader log_prior m =
     (case run ext ''train'' data_loader True log_prior
             (m\<lparr>world := set_training ext True (world m)\<rparr>) of
        (Inl e, m1) \<Rightarrow> (Inl e, m1)
      | (Inr (None, _), m1) \<Rightarrow> (Inl TypeError, m1\<lparr>optim := scheduler_step ext (optim m1)\<rparr>)
      | (Inr (Some h, _), m1) \<Rightarrow>
          (let m2 = m1\<lparr>optim := scheduler_step ext (optim m1)\<rparr> in
           case register_plots ext (h_loss h) (Some epoch) ''train'' (world m2) of
             (loss, w) \<Rightarrow> (Inr loss, m2\<lparr>world := w\<rparr>)))"

text \<open>
  \<^verbatim>\<open>test\<close> switches both networks to evaluation mode and runs a pass with \<^verbatim>\<open>None\<close> for
  the optimizer, under \<^verbatim>\<open>torch.no_grad()\<close>.
\<close>

definition test ::
  "('p, 'g, 'o, 'w, 'b, 'y) externals \<Rightarrow> string \<Rightarrow> int option \<Rightarrow> 'b list \<Rightarrow> real list list option
     \<Rightarrow> ('p, 'g, 'o, 'w) machine
     \<Rightarrow> (py_error + real list option \<times> fval list list option) \<times> ('p, 'g, 'o, 'w) machine"
where
  "test ext mode epoch data_loader log_prior m =
     (case run ext mode data_loader False log_prior
             (m\<lparr>world := set_training ext False (world m)\<rparr>) of
        (Inl e, m1) \<Rightarrow> (Inl e, m1)
      | (Inr (history, aggr), m1) \<Rightarrow>
          if mode = ''post'' then (Inr (None, aggr), m1)
          else (case history of
                  None \<Rightarrow> (Inl TypeError, m1)
                | Some h \<Rightarrow>
                    (case register_plots ext (h_loss h) epoch mode (world m1) of
                       (loss, w) \<Rightarrow> (Inr (Some loss, None), m1\<lparr>world := w\<rparr>))))"

subsection \<open>The generator (\<^verbatim>\<open>generations\<close>, lines 239--273)\<close>

text \<open>
  \<^verbatim>\<open>
  for bz in range(data.shape[0]):
      for i in range(rel_rec.shape[0]):
          for et in range(len(args.edge_types_list)):
              n = args.edge_types_list[et]
              idx = np.random.choice(n, 1, p=aggr_posterior[i, et*n:(et+1)*n])
              edges[bz, i, (et*n)+idx] = 1
  \<close>
  A loop whose body can raise, over a list of indices.
\<close>

fun fold_err :: "('a \<Rightarrow> 's \<Rightarrow> py_error + 's) \<Rightarrow> 'a list \<Rightarrow> 's \<Rightarrow> py_error + 's" where
  "fold_err f [] s = Inr s"
| "fold_err f (x # xs) s = (case f x s of Inl e \<Rightarrow> Inl e | Inr s1 \<Rightarrow> fold_err f xs s1)"

text \<open>
  The columns \<^verbatim>\<open>et*n:(et+1)*n\<close> of one row of the posterior, \<open>n\<close> the size of factor
  \<open>et\<close>. A numpy slice is cut at the end of the row.
\<close>

definition posterior_slice :: "nat list \<Rightarrow> nat \<Rightarrow> 'a list \<Rightarrow> 'a list" where
  "posterior_slice sizes et row =
     (let n = sizes ! et in take ((et + 1) * n - et * n) (drop (et * n) row))"

text \<open>The column \<^verbatim>\<open>(et*n)+idx\<close> that is set to 1 for the drawn index.\<close>

definition onehot_position :: "nat list \<Rightarrow> nat \<Rightarrow> nat \<Rightarrow> nat" where
  "onehot_position sizes et idx = (let n = sizes ! et in et * n + idx)"

text \<open>
  The body of the innermost loop: a draw by \<^verbatim>\<open>np.random.choice\<close>, which raises
  \<^verbatim>\<open>ValueError\<close> on probabilities it does not accept, and the assignment, which raises
  \<^verbatim>\<open>IndexError\<close> past the end of the row.
\<close>

definition draw_factor ::
  "('p, 'g, 'o, 'w, 'b, 'y) externals \<Rightarrow> nat list \<Rightarrow> fval list \<Rightarrow> nat \<Rightarrow> real list \<times> 'w
     \<Rightarrow> py_error + real list \<times> 'w"
where
  "draw_factor ext sizes post_row et s =
     (case s of
        (edges_row, w) \<Rightarrow>
          (case choice ext (sizes ! et) (posterior_slice sizes et post_row) w of
             (Inl e, w1) \<Rightarrow> Inl e
           | (Inr idx, w1) \<Rightarrow>
               (let k = onehot_position sizes et idx in
                if k < length edges_row then Inr (edges_row[k := 1], w1) else Inl IndexError)))"

text \<open>The loop over \<open>et\<close> for one sample and one pair, from a row of zeros.\<close>

definition generate_row ::
  "('p, 'g, 'o, 'w, 'b, 'y) externals \<Rightarrow> arguments \<Rightarrow> fval list \<Rightarrow> 'w \<Rightarrow> py_error + real list \<times> 'w"
where
  "generate_row ext a post_row w =
     fold_err (draw_factor ext (edge_types_list a) post_row) [0..<length (edge_types_list a)]
       (replicate (edge_types a) 0, w)"

text \<open>The loop over the pairs \<open>i\<close> for one sample; row \<open>i\<close> of the posterior must exist.\<close>

definition generate_pair ::
  "('p, 'g, 'o, 'w, 'b, 'y) externals \<Rightarrow> arguments \<Rightarrow> fval list list \<Rightarrow> nat
     \<Rightarrow> real list list \<times> 'w \<Rightarrow> py_error + real list list \<times> 'w"
where
  "generate_pair ext a post i s =
     (case s of
        (rows, w) \<Rightarrow>
          if i < length post
          then (case generate_row ext a (post ! i) w of
                  Inl e \<Rightarrow> Inl e
                | Inr (r, w1) \<Rightarrow> Inr (rows @ [r], w1))
          else Inl IndexError)"

definition generate_sample ::
  "('p, 'g, 'o, 'w, 'b, 'y) externals \<Rightarrow> arguments \<Rightarrow> fval list list \<Rightarrow> nat
     \<Rightarrow> real list list list \<times> 'w \<Rightarrow> py_error + real list list list \<times> 'w"
where
  "generate_sample ext a post bz s =
     (case s of
        (samples, w) \<Rightarrow>
          (case fold_err (generate_pair ext a post) [0..<num_pairs a] ([], w) of
             Inl e \<Rightarrow> Inl e
           | Inr (rows, w1) \<Rightarrow> Inr (samples @ [rows], w1)))"

text \<open>Lines 251--258: the edge tensor of one batch.\<close>

definition generate_edges ::
  "('p, 'g, 'o, 'w, 'b, 'y) externals \<Rightarrow> arguments \<Rightarrow> fval list list \<Rightarrow> 'b \<Rightarrow> 'w
     \<Rightarrow> py_error + real list list list \<times> 'w"
where
  "generate_edges ext a post b w =
     fold_err (generate_sample ext a post) [0..<size0 ext b] ([], w)"

text \<open>
  The body of the loop of line 247: edges, decoding, the logged error, the collected
  output. The state is the list of outputs, the batch index and the world.
\<close>

definition generate_batch ::
  "('p, 'g, 'o, 'w, 'b, 'y) externals \<Rightarrow> arguments \<Rightarrow> 'p \<Rightarrow> fval list list \<Rightarrow> 'b
     \<Rightarrow> 'y list \<times> nat \<times> 'w \<Rightarrow> py_error + 'y list \<times> nat \<times> 'w"
where
  "generate_batch ext a p post b s =
     (case s of
        (outputs, batch_idx, w) \<Rightarrow>
          (case generate_edges ext a post b w of
             Inl e \<Rightarrow> Inl e
           | Inr (edges, w1) \<Rightarrow>
               (case decoder ext p b (tensor_of_lists (num_pairs a) (edge_types a) edges) w1 of
                  (output, w2) \<Rightarrow>
                    Inr (outputs @ [output], batch_idx + 1,
                         add_scalar ext (F_mse_loss ext output b) (batch_idx + 1) w2))))"

text \<open>
  \<^verbatim>\<open>generations\<close>: \<^verbatim>\<open>np.concatenate\<close> raises \<^verbatim>\<open>ValueError\<close> on an empty list of outputs.
  An exception inside the loop ends \<^verbatim>\<open>main\<close>; what the loop had done to the world by
  then is not followed.
\<close>

definition generations ::
  "('p, 'g, 'o, 'w, 'b, 'y) externals \<Rightarrow> 'b list \<Rightarrow> fval list list \<Rightarrow> ('p, 'g, 'o, 'w) machine
     \<Rightarrow> (py_error + unit) \<times> ('p, 'g, 'o, 'w) machine"
where
  "generations ext data_loader post m =
     (case fold_err (generate_batch ext (args m) (params m) post) data_loader
             ([], 0, set_training ext False (world m)) of
        Inl e \<Rightarrow> (Inl e, m)
      | Inr (outputs, batch_idx, w) \<Rightarrow>
          if outputs = [] then (Inl ValueError, m\<lparr>world := w\<rparr>)
          else (Inr (), m\<lparr>world := save_outputs ext outputs w\<rparr>))"

text \<open>
  The slice of factor \<open>et\<close> as the specification words it, for comparison with
  \<open>posterior_slice\<close>: the columns at the offset that is the sum of the sizes of the
  factors before \<open>et\<close>, as many as factor \<open>et\<close> has categories.
\<close>

definition factor_slice :: "nat list \<Rightarrow> nat \<Rightarrow> 'a list \<Rightarrow> 'a list" where
  "factor_slice sizes et row = take (sizes ! et) (drop (sum_list (take et sizes)) row)"

text \<open>
  A draw that is certain: on probabilities that are 1 at one index and 0 elsewhere,
  \<^verbatim>\<open>np.random.choice\<close> returns that index whatever the random source holds. On other
  probabilities this stand-in raises.
\<close>

definition certain_choice :: "nat \<Rightarrow> fval list \<Rightarrow> 'w \<Rightarrow> (py_error + nat) \<times> 'w" where
  "certain_choice n p w =
     (if length p = n \<and> length (filter (\<lambda>x. x = Fin 1) p) = 1
           \<and> list_all (\<lambda>x. x = Fin 1 \<or> x = Fin 0) p
      then (Inr (length (takeWhile (\<lambda>x. x \<noteq> Fin 1) p)), w)
      else (Inl ValueError, w))"

subsection \<open>\<^verbatim>\<open>main\<close> (lines 276--458)\<close>

text \<open>
  The body of the epoch loop: a training pass, a validation pass, a test pass, and the
  checkpoint store's answer on the validation losses.
\<close>

definition epoch_body ::
  "('p, 'g, 'o, 'w, 'b, 'y) externals \<Rightarrow> 'b list \<Rightarrow> 'b list \<Rightarrow> 'b list \<Rightarrow> real list list option
     \<Rightarrow> ('p, 'g, 'o, 'w) machine epoch_body"
where
  "epoch_body ext train_loader val_loader test_loader log_prior epoch m =
     (case train ext epoch train_loader log_prior m of
        (Inl e, m1) \<Rightarrow> (Inl e, m1)
      | (Inr _, m1) \<Rightarrow>
          (case test ext ''val'' (Some epoch) val_loader log_prior m1 of
             (Inl e, m2) \<Rightarrow> (Inl e, m2)
           | (Inr (val_loss, _), m2) \<Rightarrow>
               (case test ext ''test'' (Some epoch) test_loader log_prior m2 of
                  (Inl e, m3) \<Rightarrow> (Inl e, m3)
                | (Inr _, m3) \<Rightarrow>
                    (case val_loss of
                       None \<Rightarrow> (Inl TypeError, m3)
                     | Some losses \<Rightarrow>
                         (case store ext losses (params m3) (optim m3) (world m3) of
                            (best_val_loss, w) \<Rightarrow> (Inr best_val_loss, m3\<lparr>world := w\<rparr>))))))"

text \<open>
  Lines 431--455, after the epoch loop: the best checkpoint is restored, the posterior
  is aggregated over the training set, written to the log file as the row-major list of
  its entries, and handed to the generator with the test set.
\<close>

definition after_training ::
  "('p, 'g, 'o, 'w, 'b, 'y) externals \<Rightarrow> 'b list \<Rightarrow> 'b list \<Rightarrow> real list list option
     \<Rightarrow> ('p, 'g, 'o, 'w) machine \<Rightarrow> (py_error + unit) \<times> ('p, 'g, 'o, 'w) machine"
where
  "after_training ext train_loader test_loader log_prior m =
     (case restore_best ext (params m) (optim m) (world m) of
        (p, opt, w) \<Rightarrow>
          (case test ext ''post'' None train_loader log_prior
                  (m\<lparr>params := p, optim := opt, world := w\<rparr>) of
             (Inl e, m1) \<Rightarrow> (Inl e, m1)
           | (Inr (_, None), m1) \<Rightarrow> (Inl AttributeError, m1)
           | (Inr (_, Some post), m1) \<Rightarrow>
               generations ext test_loader post
                 (m1\<lparr>world := write_posterior ext (concat post) (world m1)\<rparr>)))"

text \<open>
  \<^verbatim>\<open>main\<close> from line 326 to line 405. The world \<open>w0\<close> is the one in which the arguments
  are parsed, the logger is set up and the three loaders are there (lines 278--324);
  \<open>raw\<close> is the partition as the command line gave it and \<open>a0\<close> holds the other options.
  The networks, the optimizer and the scheduler are built by \<open>construct\<close> (lines
  334--377), after the check of the partition and before the prior. The result is the
  exception with the world it leaves, or \<^verbatim>\<open>log_prior\<close> with the objects of the run.
\<close>

definition main_setup ::
  "('p, 'g, 'o, 'w, 'b, 'y) externals \<Rightarrow> cli_value list \<Rightarrow> arguments \<Rightarrow> 'w
     \<Rightarrow> py_error \<times> 'w + real list list option \<times> ('p, 'g, 'o, 'w) machine"
where
  "main_setup ext raw a0 w0 =
     (case startup_partition (int_of_str ext) raw of
        Inl e \<Rightarrow> Inl (e, w0)
      | Inr (sorted_list, total_types) \<Rightarrow>
          (let a1 = a0\<lparr>edge_types_list := map nat sorted_list, edge_types := nat total_types\<rparr> in
           case construct ext a1 w0 of
             ((p, g, opt), w1) \<Rightarrow>
               (case build_log_prior (np_log ext) (prior a1) (edge_types_list a1) of
                  Inl e \<Rightarrow> Inl (e, w1)
                | Inr log_prior \<Rightarrow>
                    (let a2 = a1\<lparr>conditional := (cond_hidden a1 \<or> cond_msgs a1)\<rparr> in
                     Inr (log_prior,
                          \<lparr>args = a2, params = p, grads = g, optim = opt, world = w1\<rparr>)))))"

text \<open>\<^verbatim>\<open>main\<close>: the setup, the epoch loop, and what follows it.\<close>

definition main ::
  "('p, 'g, 'o, 'w, 'b, 'y) externals \<Rightarrow> cli_value list \<Rightarrow> arguments \<Rightarrow> 'b list \<Rightarrow> 'b list \<Rightarrow> 'b list
     \<Rightarrow> 'w \<Rightarrow> (py_error + unit) \<times> 'w"
where
  "main ext raw a0 train_loader val_loader test_loader w0 =
     (case main_setup ext raw a0 w0 of
        Inl (e, w) \<Rightarrow> (Inl e, w)
      | Inr (log_prior, m0) \<Rightarrow>
          (case train_epochs (epoch_body ext train_loader val_loader test_loader log_prior)
                  (patience (args m0)) (epochs (args m0)) m0 of
             (tr, Raised e, m1) \<Rightarrow> (Inl e, world m1)
           | (tr, _, m1) \<Rightarrow>
               (case after_training ext train_loader test_loader log_prior m1 of
                  (r, m2) \<Rightarrow> (r, world m2))))"

subsection \<open>The values of a pass, and collaborators to run it with\<close>

text \<open>
  The values that the batches of a pass produce, in the order of the loader: for each
  batch, what \<open>forward_batch\<close> computes in the state that the pass has reached when it
  comes to that batch. It follows \<open>run_loop\<close> step by step and stops where the pass
  raises.
\<close>

fun batch_outputs ::
  "('p, 'g, 'o, 'w, 'b, 'y) externals \<Rightarrow> string \<Rightarrow> bool \<Rightarrow> real list list option \<Rightarrow> 'b list
     \<Rightarrow> ('p, 'g, 'o, 'w) loop_state \<Rightarrow> batch_out list"
where
  "batch_outputs ext mode optimizer log_prior [] ls = []"
| "batch_outputs ext mode optimizer log_prior (b # bs) ls =
     (case run_batch ext mode optimizer log_prior b ls of
        (Some e, ls1) \<Rightarrow> []
      | (None, ls1) \<Rightarrow>
          (case forward_batch ext (args (mach ls)) log_prior (params (mach ls)) b
                  (world (mach ls)) of
             (Inl e, w) \<Rightarrow> []
           | (Inr out, w) \<Rightarrow> out # batch_outputs ext mode optimizer log_prior bs ls1))"

text \<open>
  Small collaborators for running the model on examples: a batch is the tensor of its
  logits, the sampler always picks the first category of its factor (every row becomes
  the one-hot vector of index 0), the parameters are one integer that the optimizer
  moves against the gradient, the world counts the draws of the sampler, and \<open>x - 1\<close>
  stands in for the logarithm.
\<close>

definition demo_ext :: "(int, int, nat, nat, tensor3, real) externals" where
  "demo_ext =
     \<lparr>int_of_str = one_digit,
      np_log = (\<lambda>x. x - 1),
      construct = (\<lambda>a w. ((0, 0, 0), w)),
      encoder = (\<lambda>p b w. (b, w)),
      gumbel_softmax = (\<lambda>t w. (t\<lparr>at3 := (\<lambda>s i j. if j = 0 then 1 else 0)\<rparr>, w + 1)),
      my_softmax = (\<lambda>t. t),
      kl_categorical = (\<lambda>t lp n. 0),
      kl_categorical_uniform = (\<lambda>t n k. 1),
      KL_between_blocks = (\<lambda>ts n. [0]),
      decoder = (\<lambda>p b e w. (real_of_int p, w)),
      nll_gaussian = (\<lambda>y b. 2),
      F_mse_loss = (\<lambda>y b. 3),
      size0 = dim0,
      zero_grad = (\<lambda>g. 0),
      backward = (\<lambda>p b w loss g. g + 1),
      clip_grad_norm = (\<lambda>g. g),
      optimizer_step = (\<lambda>opt p g. (opt + 1, p - g)),
      scheduler_step = (\<lambda>opt. opt),
      set_training = (\<lambda>flag w. w),
      register_plots = (\<lambda>losses epoch prefix w. (losses, w)),
      store = (\<lambda>losses p opt w. (True, w)),
      restore_best = (\<lambda>p opt w. (p, opt, w)),
      write_posterior = (\<lambda>values w. w),
      choice = certain_choice,
      add_scalar = (\<lambda>x n w. w),
      save_outputs = (\<lambda>outputs w. w)\<rparr>"

definition demo_args :: arguments where
  "demo_args =
     \<lparr>num_atoms = 2, edge_types = 4, edge_types_list = [2, 2], prior = False, beta = 1,
      mse_loss = False, patience = 2, epochs = 1, cond_hidden = False, cond_msgs = False,
      conditional = False\<rparr>"

definition demo_machine :: "(int, int, nat, nat) machine" where
  "demo_machine = \<lparr>args = demo_args, params = 5, grads = 0, optim = 0, world = 0\<rparr>"

text \<open>A batch of two samples over the two ordered pairs of two atoms, four edge types.\<close>

definition demo_batch :: tensor3 where
  "demo_batch =
     tensor_of_lists 2 4 [[[1, 2, 3, 4], [0, 0, 0, 0]], [[4, 3, 2, 1], [1, 1, 1, 1]]]"

text \<open>
  The small collaborators with an optimizer that raises the parameter by one in each
  step, and a checkpoint store whose best checkpoint holds the parameter 0.
\<close>

definition demo_ext_restoring :: "(int, int, nat, nat, tensor3, real) externals" where
  "demo_ext_restoring =
     demo_ext\<lparr>optimizer_step := (\<lambda>opt p g. (opt + 1, p + 1)),
               restore_best := (\<lambda>p opt w. (0, opt, w))\<rparr>"

subsection \<open>Notions for stating the properties\<close>


text \<open>
  Parameters that are reached from given ones by optimizer steps only, with whatever
  optimizer state and gradient each step finds.
\<close>

inductive reached :: "('p, 'g, 'o, 'w, 'b, 'y) externals \<Rightarrow> 'p \<Rightarrow> 'p \<Rightarrow> bool"
  for ext :: "('p, 'g, 'o, 'w, 'b, 'y) externals" and p :: 'p
where
  reached_start: "reached ext p p"
| reached_step: "reached ext p q \<Longrightarrow> reached ext p (snd (optimizer_step ext opt q g))"

text \<open>
  The accumulator of a posterior pass after the sums of the batches have been added to
  it in turn, by the sum of line 195.
\<close>

fun accumulate :: "tensor2 \<Rightarrow> tensor2 list \<Rightarrow> py_error + tensor2" where
  "accumulate acc [] = Inr acc"
| "accumulate acc (t # ts) =
     (case tensor_add acc t of Inl e \<Rightarrow> Inl e | Inr acc1 \<Rightarrow> accumulate acc1 ts)"

text \<open>
  The sum of the entries of a row that belong to factor \<open>k\<close> of the partition: the block
  of width \<open>sizes ! k\<close> that starts at the sum of the sizes before it.
\<close>

definition block_sum :: "nat list \<Rightarrow> (nat \<Rightarrow> real) \<Rightarrow> nat \<Rightarrow> real" where
  "block_sum sizes row k =
     sum_list (map (\<lambda>j. row (sum_list (take k sizes) + j)) [0..<sizes ! k])"

text \<open>
  The premise that each per-sample per-factor edge sample sums to 1, for the edge tensor
  of a batch of \<open>n\<close> samples: the tensor holds one sample for each sample of the batch,
  every row of a sample is made of one block for each factor, side by side in the order
  of the partition, and each block sums to 1.
\<close>

definition edge_samples_sum_one :: "nat list \<Rightarrow> nat \<Rightarrow> tensor3 \<Rightarrow> bool" where
  "edge_samples_sum_one sizes n e =
     (dim0 e = n \<and> dim2 e = sum_list sizes \<and>
      list_all (\<lambda>s. list_all (\<lambda>i. list_all
          (\<lambda>k. block_sum sizes (at3 e s i) k = 1)
          [0..<length sizes]) [0..<dim1 e]) [0..<n])"

section \<open>Early stopping\<close>










section \<open>The partition at startup\<close>


lemma map_int_values:
  "map_int i raw = Inr ks \<Longrightarrow> ks = map (entry_value i) raw \<and> (\<forall>v\<in>set raw. py_int i v = Inr (entry_value i v))"
  by (induction raw arbitrary: ks) (auto simp: entry_value_def split: sum.splits)



lemma sum_list_sort_reverse: "sum_list (sort_reverse ks) = sum_list ks"
proof -
  have "mset (sort_reverse ks) = mset ks" by (simp add: sort_reverse_def)
  then show ?thesis by (metis sum_mset_sum_list)
qed



lemma sorted_sort_reverse: "sorted (rev (sort_reverse ks))"
  by (simp add: sort_reverse_def)

lemma startup_result:
  "startup_partition f raw = Inr (L, T) \<Longrightarrow>
   L = sort_reverse (map (entry_value f) raw) \<and> T = sum_list (map (entry_value f) raw) \<and> (\<forall>k\<in>set L. k \<ge> 1)"
  by (auto simp: startup_partition_def Let_def sum_list_sort_reverse list_all_iff
      dest: map_int_values split: sum.splits if_splits)



section \<open>What a pass leaves unchanged\<close>

lemma train_step_args: "args (train_step ext b w loss m) = args m"
  by (simp add: train_step_def Let_def split: prod.splits)

lemma run_batch_args: "args (mach (snd (run_batch ext mode opt lp b ls))) = args (mach ls)"
  by (simp add: run_batch_def Let_def train_step_args split: prod.splits sum.splits)

lemma run_loop_args: "args (mach (snd (run_loop ext mode opt lp bs ls))) = args (mach ls)"
proof (induction bs arbitrary: ls)
  case Nil
  show ?case by simp
next
  case (Cons b bs)
  show ?case
  proof (cases "run_batch ext mode opt lp b ls")
    case (Pair r ls1)
    have a: "args (mach ls1) = args (mach ls)"
      using run_batch_args [of ext mode opt lp b ls] Pair by simp
    show ?thesis
    proof (cases r)
      case None
      with Pair Cons.IH [of ls1] a show ?thesis by simp
    next
      case (Some e)
      with Pair a show ?thesis by simp
    qed
  qed
qed

lemma run_args: "args (snd (run ext mode loader opt lp m)) = args m"
proof -
  have "args (mach (snd (run_loop ext mode opt lp loader (initial_loop_state m)))) = args m"
    by (simp add: run_loop_args initial_loop_state_def)
  then show ?thesis
    by (auto simp: run_def split: prod.splits option.splits)
qed

lemma train_args: "args (snd (train ext epoch loader lp m)) = args m"
proof -
  have "args (snd (run ext ''train'' loader True lp (m\<lparr>world := set_training ext True (world m)\<rparr>))) = args m"
    by (simp add: run_args)
  then show ?thesis
    by (auto simp: train_def Let_def split: prod.splits sum.splits option.splits)
qed

lemma test_args: "args (snd (test ext mode epoch loader lp m)) = args m"
proof -
  have "args (snd (run ext mode loader False lp (m\<lparr>world := set_training ext False (world m)\<rparr>))) = args m"
    by (simp add: run_args)
  then show ?thesis
    by (auto simp: test_def Let_def split: prod.splits sum.splits option.splits)
qed

lemma generations_args: "args (snd (generations ext loader post m)) = args m"
  by (auto simp: generations_def split: prod.splits sum.splits)

lemma epoch_body_args:
  "args (snd (epoch_body ext trl vl tsl lp epoch m)) = args m"
proof -
  obtain r1 m1 where t1: "train ext epoch trl lp m = (r1, m1)" by (cases "train ext epoch trl lp m")
  then have a1: "args m1 = args m" using train_args [of ext epoch trl lp m] by simp
  obtain r2 m2 where t2: "test ext ''val'' (Some epoch) vl lp m1 = (r2, m2)"
    by (cases "test ext ''val'' (Some epoch) vl lp m1")
  then have a2: "args m2 = args m" using test_args [of ext "''val''" "Some epoch" vl lp m1] a1 by simp
  obtain r3 m3 where t3: "test ext ''test'' (Some epoch) tsl lp m2 = (r3, m3)"
    by (cases "test ext ''test'' (Some epoch) tsl lp m2")
  then have a3: "args m3 = args m" using test_args [of ext "''test''" "Some epoch" tsl lp m2] a2 by simp
  show ?thesis
    using t1 t2 t3 a1 a2 a3
    by (auto simp: epoch_body_def split: prod.splits sum.splits option.splits)
qed

lemma epoch_loop_args:
  "args (snd (snd (epoch_loop (epoch_body ext trl vl tsl lp) pat c eps m))) = args m"
proof (induction eps arbitrary: c m)
  case Nil
  show ?case by simp
next
  case (Cons epoch rest)
  obtain r m1 where b: "epoch_body ext trl vl tsl lp epoch m = (r, m1)"
    by (cases "epoch_body ext trl vl tsl lp epoch m")
  then have a1: "args m1 = args m" using epoch_body_args [of ext trl vl tsl lp epoch m] by simp
  show ?case
  proof (cases r)
    case (Inl e)
    with b a1 show ?thesis by simp
  next
    case (Inr best)
    show ?thesis
      using b Inr a1 Cons.IH [of "if best then 0 else c + 1" m1]
      by (auto simp: Let_def split: prod.splits)
  qed
qed

lemma train_epochs_args:
  "args (snd (snd (train_epochs (epoch_body ext trl vl tsl lp) pat eps m))) = args m"
  by (simp add: train_epochs_def epoch_loop_args)

lemma after_training_args:
  "args (snd (after_training ext trl tsl lp m)) = args m"
proof -
  obtain p opt w where r: "restore_best ext (params m) (optim m) (world m) = (p, opt, w)"
    by (cases "restore_best ext (params m) (optim m) (world m)") auto
  let ?m = "m\<lparr>params := p, optim := opt, world := w\<rparr>"
  obtain r1 m1 where t: "test ext ''post'' None trl lp ?m = (r1, m1)"
    by (cases "test ext ''post'' None trl lp ?m")
  then have a1: "args m1 = args m" using test_args [of ext "''post''" None trl lp ?m] by simp
  show ?thesis
    using r t a1
    by (auto simp: after_training_def generations_args split: prod.splits sum.splits option.splits)
qed

lemma sorted_map_nat: "sorted xs \<Longrightarrow> sorted (map nat xs)"
  by (induction xs) auto

lemma main_setup_partition:
  assumes "main_setup ext raw a0 w0 = Inr (log_prior, m0)"
  shows "map int (edge_types_list (args m0)) = sort_reverse (map (entry_value (int_of_str ext)) raw) \<and>
         int (edge_types (args m0)) = sum_list (map (entry_value (int_of_str ext)) raw)"
proof -
  from assms obtain L T where st: "startup_partition (int_of_str ext) raw = Inr (L, T)"
    by (auto simp: main_setup_def split: sum.splits)
  note r = startup_result [OF st]
  from st assms have a: "edge_types_list (args m0) = map nat L" "edge_types (args m0) = nat T"
    by (auto simp: main_setup_def Let_def split: prod.splits sum.splits)
  from r have pos: "\<forall>k\<in>set L. k \<ge> 1" by simp
  then have "map int (map nat L) = L"
    by (induction L) auto
  moreover have "T \<ge> 0"
  proof -
    have "sum_list L \<ge> 0" using pos by (intro sum_list_nonneg) force
    moreover have "T = sum_list L" using r by (simp add: sum_list_sort_reverse)
    ultimately show ?thesis by simp
  qed
  ultimately show ?thesis using a r by simp
qed

text \<open>
  Claim C8. When the setup of \<^verbatim>\<open>main\<close> succeeds, the partition in \<^verbatim>\<open>args\<close> is the
  configured one sorted into descending order. Every operation that follows reads the
  partition from \<^verbatim>\<open>args\<close>, and none of them changes \<^verbatim>\<open>args\<close>: not a pass in any mode
  (\<^verbatim>\<open>run\<close>, \<^verbatim>\<open>train\<close>, \<^verbatim>\<open>test\<close>, the latter also for the posterior), not the generator,
  not the whole epoch loop, not the steps after it.
\<close>

theorem partition_sorted_and_fixed:
  assumes "main_setup ext raw a0 w0 = Inr (log_prior, m0)"
  shows "map int (edge_types_list (args m0)) = sort_reverse (map (entry_value (int_of_str ext)) raw) \<and>
         sorted (rev (edge_types_list (args m0))) \<and>
         args (snd (run ext mode loader opt lp m)) = args m \<and>
         args (snd (train ext epoch loader lp m)) = args m \<and>
         args (snd (test ext mode epoch' loader lp m)) = args m \<and>
         args (snd (generations ext loader post m)) = args m \<and>
         args (snd (snd (train_epochs (epoch_body ext train_loader val_loader test_loader lp)
                           pat eps m))) = args m \<and>
         args (snd (after_training ext train_loader test_loader lp m)) = args m"
proof -
  have p: "map int (edge_types_list (args m0)) = sort_reverse (map (entry_value (int_of_str ext)) raw)"
    using main_setup_partition [OF assms] by simp
  have "sorted (rev (map int (edge_types_list (args m0))))"
    by (simp only: p sorted_sort_reverse)
  then have "sorted (map nat (rev (map int (edge_types_list (args m0)))))"
    by (rule sorted_map_nat)
  then have s: "sorted (rev (edge_types_list (args m0)))"
    by (simp add: rev_map [symmetric] comp_def)
  show ?thesis
    using p s
    by (simp add: run_args train_args test_args generations_args train_epochs_args after_training_args)
qed

text \<open>The partition \<^verbatim>\<open>2 3 1\<close> becomes [3, 2, 1]; a validation pass leaves [2, 2] as it is.\<close>

theorem partition_sorted_and_fixed_witness:
  "main_setup demo_ext [PyStr ''2'', PyInt 3, PyStr ''1''] demo_args 0 =
     Inr (None, \<lparr>args = demo_args\<lparr>edge_types_list := [3, 2, 1], edge_types := 6\<rparr>,
                 params = 0, grads = 0, optim = 0, world = 0\<rparr>) \<and>
   sorted (rev [3, 2, 1 :: nat]) \<and>
   edge_types_list (args (snd (run demo_ext ''val'' [demo_batch] False None demo_machine))) = [2, 2]"
proof -
  have ms: "main_setup demo_ext [PyStr ''2'', PyInt 3, PyStr ''1''] demo_args 0 =
     Inr (None, \<lparr>args = demo_args\<lparr>edge_types_list := [3, 2, 1], edge_types := 6\<rparr>,
                 params = 0, grads = 0, optim = 0, world = 0\<rparr>)"
    by (simp add: main_setup_def startup_partition_def demo_ext_def one_digit_def py_int_def
        sort_reverse_def build_log_prior_def demo_args_def)
  show ?thesis
    using partition_sorted_and_fixed [OF ms, of "''val''" "[demo_batch]" False None demo_machine] ms
    by (simp add: demo_machine_def demo_args_def)
qed

section \<open>The sparsity prior\<close>

lemma build_prior_first_one:
  "L \<noteq> [] \<Longrightarrow> hd L = 1 \<Longrightarrow> build_prior L = Inl ZeroDivisionError"
  by (cases L) (auto simp: build_prior_def)

text \<open>
  Claim C9. With the prior switched on and an accepted partition whose first (largest)
  entry is 1, the construction of the prior raises \<^verbatim>\<open>ZeroDivisionError\<close>: the result
  is that exception and not the \<^verbatim>\<open>ValueError\<close> of the size check that follows in the
  source. The setup and \<^verbatim>\<open>main\<close> end with it, after the networks are built.
\<close>

theorem prior_divides_by_zero:
  assumes "startup_partition (int_of_str ext) raw = Inr (L, T)"
      and "L \<noteq> []" and "hd L = 1" and "prior a0"
  shows "build_prior (map nat L) = Inl ZeroDivisionError \<and>
         main_setup ext raw a0 w0 =
           Inl (ZeroDivisionError,
                snd (construct ext (a0\<lparr>edge_types_list := map nat L, edge_types := nat T\<rparr>) w0)) \<and>
         fst (main ext raw a0 train_loader val_loader test_loader w0) = Inl ZeroDivisionError"
proof -
  have "map nat L \<noteq> []" "hd (map nat L) = 1"
    using assms(2,3) by (simp_all add: hd_map)
  then have bp: "build_prior (map nat L) = Inl ZeroDivisionError"
    by (rule build_prior_first_one)
  have ms: "main_setup ext raw a0 w0 =
           Inl (ZeroDivisionError,
                snd (construct ext (a0\<lparr>edge_types_list := map nat L, edge_types := nat T\<rparr>) w0))"
    using bp assms(1,4) by (simp add: main_setup_def Let_def build_log_prior_def split: prod.splits)
  show ?thesis
    using bp ms by (simp add: main_def)
qed

text \<open>The partition \<^verbatim>\<open>1 1\<close> passes the startup check and then fails in the prior.\<close>

theorem prior_divides_by_zero_witness:
  "startup_partition (int_of_str demo_ext) [PyStr ''1'', PyStr ''1''] = Inr ([1, 1], 2) \<and>
   [1, 1 :: int] \<noteq> [] \<and> hd [1, 1 :: int] = 1 \<and> prior (demo_args\<lparr>prior := True\<rparr>) \<and>
   build_prior (map nat [1, 1]) = Inl ZeroDivisionError \<and>
   fst (main demo_ext [PyStr ''1'', PyStr ''1''] (demo_args\<lparr>prior := True\<rparr>)
          [demo_batch] [demo_batch] [demo_batch] 0) = Inl ZeroDivisionError"
proof -
  have st: "startup_partition (int_of_str demo_ext) [PyStr ''1'', PyStr ''1''] = Inr ([1, 1], 2)"
    by (simp add: startup_partition_def demo_ext_def one_digit_def py_int_def sort_reverse_def)
  show ?thesis
    using prior_divides_by_zero [OF st, of "demo_args\<lparr>prior := True\<rparr>" 0
            "[demo_batch]" "[demo_batch]" "[demo_batch]"] st
    by simp
qed

section \<open>The generator\<close>

text \<open>
  Claim C2, at the partition [3, 2]: for the second factor the generator reads the
  columns 2 and 3 of the posterior row, the last column of the first factor and the
  first of the second, where the slice of the second factor is the columns 3 and 4. On
  a posterior row that is certain of category 2 in the first factor and of category 1
  in the second, the draw for the second factor sees the probabilities (1, 0) and sets
  column 2 again: the generated row has no entry for the second factor.
\<close>

theorem generator_slice_at_unequal_factors:
  "posterior_slice [3, 2] 1 [a0, a1, a2, b0, b1] = [a2, b0] \<and>
   factor_slice [3, 2] 1 [a0, a1, a2, b0, b1] = [b0, b1] \<and>
   generate_row demo_ext (demo_args\<lparr>edge_types_list := [3, 2], edge_types := 5\<rparr>)
     [Fin 0, Fin 0, Fin 1, Fin 0, Fin 1] w = Inr ([0, 0, 1, 0, 0], w)"
  by (simp add: posterior_slice_def factor_slice_def generate_row_def draw_factor_def demo_ext_def
      demo_args_def certain_choice_def onehot_position_def upt_rec [of 0] upt_rec [of 1]
      eval_nat_numeral)

section \<open>The optimized loss\<close>






section \<open>Parameters outside of training\<close>

lemma run_batch_frozen:
  "mode \<noteq> ''train'' \<Longrightarrow>
   params (mach (snd (run_batch ext mode opt lp b ls))) = params (mach ls) \<and>
   grads (mach (snd (run_batch ext mode opt lp b ls))) = grads (mach ls) \<and>
   optim (mach (snd (run_batch ext mode opt lp b ls))) = optim (mach ls)"
  by (simp add: run_batch_def Let_def split: prod.splits sum.splits)

lemma run_loop_frozen:
  "mode \<noteq> ''train'' \<Longrightarrow>
   params (mach (snd (run_loop ext mode opt lp bs ls))) = params (mach ls) \<and>
   grads (mach (snd (run_loop ext mode opt lp bs ls))) = grads (mach ls) \<and>
   optim (mach (snd (run_loop ext mode opt lp bs ls))) = optim (mach ls)"
proof (induction bs arbitrary: ls)
  case Nil
  show ?case by simp
next
  case (Cons b bs)
  obtain r ls1 where step: "run_batch ext mode opt lp b ls = (r, ls1)"
    by (cases "run_batch ext mode opt lp b ls")
  have same: "params (mach ls1) = params (mach ls) \<and> grads (mach ls1) = grads (mach ls) \<and>
              optim (mach ls1) = optim (mach ls)"
    using run_batch_frozen [OF Cons.prems, of ext opt lp b ls] step by simp
  show ?case
  proof (cases r)
    case None
    with step same Cons.IH [OF Cons.prems, of ls1] show ?thesis by simp
  next
    case (Some e)
    with step same show ?thesis by simp
  qed
qed

lemma run_frozen:
  assumes "mode \<noteq> ''train''"
  shows "params (snd (run ext mode loader opt lp m)) = params m \<and>
         grads (snd (run ext mode loader opt lp m)) = grads m \<and>
         optim (snd (run ext mode loader opt lp m)) = optim m"
proof -
  have "params (mach (snd (run_loop ext mode opt lp loader (initial_loop_state m)))) = params m \<and>
        grads (mach (snd (run_loop ext mode opt lp loader (initial_loop_state m)))) = grads m \<and>
        optim (mach (snd (run_loop ext mode opt lp loader (initial_loop_state m)))) = optim m"
    using run_loop_frozen [OF assms, of ext opt lp loader "initial_loop_state m"]
    by (simp add: initial_loop_state_def)
  then show ?thesis
    by (auto simp: run_def split: prod.splits option.splits)
qed

lemma test_frozen:
  assumes "mode \<noteq> ''train''"
  shows "params (snd (test ext mode epoch loader lp m)) = params m \<and>
         grads (snd (test ext mode epoch loader lp m)) = grads m \<and>
         optim (snd (test ext mode epoch loader lp m)) = optim m"
proof -
  let ?m = "m\<lparr>world := set_training ext False (world m)\<rparr>"
  have "params (snd (run ext mode loader False lp ?m)) = params m \<and>
        grads (snd (run ext mode loader False lp ?m)) = grads m \<and>
        optim (snd (run ext mode loader False lp ?m)) = optim m"
    using run_frozen [OF assms, of ext loader False lp ?m] by simp
  then show ?thesis
    by (auto simp: test_def Let_def split: prod.splits sum.splits option.splits)
qed

lemma run_batch_train_params:
  "run_batch ext ''train'' opt lp b ls = (None, ls1) \<Longrightarrow>
   \<exists>g. params (mach ls1) = snd (optimizer_step ext (optim (mach ls)) (params (mach ls)) g)"
  apply (auto simp: run_batch_def Let_def train_step_def split: prod.splits sum.splits if_splits)
  apply (metis snd_conv)
  done

lemma run_batch_train_failed:
  "run_batch ext ''train'' opt lp b ls = (Some e, ls1) \<Longrightarrow> params (mach ls1) = params (mach ls)"
  by (auto simp: run_batch_def Let_def train_step_def split: prod.splits sum.splits if_splits)

lemma run_batch_reached:
  assumes "reached ext p0 (params (mach ls))"
  shows "reached ext p0 (params (mach (snd (run_batch ext mode opt lp b ls))))"
proof (cases "mode = ''train''")
  case False
  with run_batch_frozen [OF False, of ext opt lp b ls] assms show ?thesis by simp
next
  case True
  obtain r ls1 where step: "run_batch ext ''train'' opt lp b ls = (r, ls1)"
    by (cases "run_batch ext ''train'' opt lp b ls")
  show ?thesis
  proof (cases r)
    case None
    from run_batch_train_params [OF step [unfolded None]] obtain g opt' where
      "params (mach ls1) = snd (optimizer_step ext opt' (params (mach ls)) g)" by blast
    with reached_step [OF assms, of opt' g] step True show ?thesis by simp
  next
    case (Some e)
    with run_batch_train_failed [OF step [unfolded Some]] assms step True show ?thesis by simp
  qed
qed

lemma run_loop_reached:
  "reached ext p0 (params (mach ls)) \<Longrightarrow>
   reached ext p0 (params (mach (snd (run_loop ext mode opt lp bs ls))))"
proof (induction bs arbitrary: ls)
  case Nil
  then show ?case by simp
next
  case (Cons b bs)
  obtain r ls1 where step: "run_batch ext mode opt lp b ls = (r, ls1)"
    by (cases "run_batch ext mode opt lp b ls")
  have r1: "reached ext p0 (params (mach ls1))"
    using run_batch_reached [OF Cons.prems, of mode opt lp b] step by simp
  show ?case
  proof (cases r)
    case None
    with step Cons.IH [OF r1] show ?thesis by simp
  next
    case (Some e)
    with step r1 show ?thesis by simp
  qed
qed

lemma run_reached:
  assumes "reached ext p0 (params m)"
  shows "reached ext p0 (params (snd (run ext mode loader opt lp m)))"
proof -
  have "reached ext p0 (params (mach (initial_loop_state m)))"
    using assms by (simp add: initial_loop_state_def)
  from run_loop_reached [OF this, of mode opt lp loader] show ?thesis
    by (auto simp: run_def split: prod.splits option.splits)
qed

lemma train_reached:
  assumes "reached ext p0 (params m)"
  shows "reached ext p0 (params (snd (train ext epoch loader lp m)))"
proof -
  let ?m = "m\<lparr>world := set_training ext True (world m)\<rparr>"
  have "reached ext p0 (params ?m)" using assms by simp
  from run_reached [OF this, of "''train''" loader True lp] show ?thesis
    by (auto simp: train_def Let_def split: prod.splits sum.splits option.splits)
qed

lemma test_params: "params (snd (test ext mode epoch loader lp m)) =
                    params (snd (run ext mode loader False lp (m\<lparr>world := set_training ext False (world m)\<rparr>)))"
  by (auto simp: test_def Let_def split: prod.splits sum.splits option.splits)

lemma test_reached:
  assumes "reached ext p0 (params m)"
  shows "reached ext p0 (params (snd (test ext mode epoch loader lp m)))"
proof -
  let ?m = "m\<lparr>world := set_training ext False (world m)\<rparr>"
  have "reached ext p0 (params ?m)" using assms by simp
  from run_reached [OF this, of mode loader False lp] show ?thesis
    by (simp add: test_params)
qed

lemma epoch_body_reached:
  assumes "reached ext p0 (params m)"
  shows "reached ext p0 (params (snd (epoch_body ext trl vl tsl lp epoch m)))"
proof -
  obtain r1 m1 where t1: "train ext epoch trl lp m = (r1, m1)" by (cases "train ext epoch trl lp m")
  then have a1: "reached ext p0 (params m1)"
    using train_reached [OF assms, of epoch trl lp] by simp
  obtain r2 m2 where t2: "test ext ''val'' (Some epoch) vl lp m1 = (r2, m2)"
    by (cases "test ext ''val'' (Some epoch) vl lp m1")
  then have a2: "reached ext p0 (params m2)"
    using test_reached [OF a1, of "''val''" "Some epoch" vl lp] by simp
  obtain r3 m3 where t3: "test ext ''test'' (Some epoch) tsl lp m2 = (r3, m3)"
    by (cases "test ext ''test'' (Some epoch) tsl lp m2")
  then have a3: "reached ext p0 (params m3)"
    using test_reached [OF a2, of "''test''" "Some epoch" tsl lp] by simp
  show ?thesis
    using t1 t2 t3 a1 a2 a3
    by (auto simp: epoch_body_def split: prod.splits sum.splits option.splits)
qed

lemma epoch_loop_reached:
  "reached ext p0 (params m) \<Longrightarrow>
   reached ext p0 (params (snd (snd (epoch_loop (epoch_body ext trl vl tsl lp) pat c eps m))))"
proof (induction eps arbitrary: c m)
  case Nil
  then show ?case by simp
next
  case (Cons epoch rest)
  obtain r m1 where b: "epoch_body ext trl vl tsl lp epoch m = (r, m1)"
    by (cases "epoch_body ext trl vl tsl lp epoch m")
  then have a1: "reached ext p0 (params m1)"
    using epoch_body_reached [OF Cons.prems, of trl vl tsl lp epoch] by simp
  show ?case
  proof (cases r)
    case (Inl e)
    with b a1 show ?thesis by simp
  next
    case (Inr best)
    show ?thesis
      using b Inr a1 Cons.IH [OF a1, of "if best then 0 else c + 1"]
      by (auto simp: Let_def split: prod.splits)
  qed
qed

lemma generations_params: "params (snd (generations ext loader post m)) = params m"
  by (auto simp: generations_def split: prod.splits sum.splits)

lemma after_training_params:
  "params (snd (after_training ext trl tsl lp m)) =
     fst (restore_best ext (params m) (optim m) (world m))"
proof -
  obtain p opt w where r: "restore_best ext (params m) (optim m) (world m) = (p, opt, w)"
    by (cases "restore_best ext (params m) (optim m) (world m)") auto
  let ?m = "m\<lparr>params := p, optim := opt, world := w\<rparr>"
  have ne: "''post'' \<noteq> ''train''" by simp
  obtain r1 m1 where t: "test ext ''post'' None trl lp ?m = (r1, m1)"
    by (cases "test ext ''post'' None trl lp ?m")
  then have a1: "params m1 = p" using test_frozen [OF ne, of ext None trl lp ?m] by simp
  show ?thesis
    using r t a1
    by (auto simp: after_training_def generations_params split: prod.splits sum.splits option.splits)
qed

text \<open>
  Claim C6, as amended. A pass in a mode other than \<^verbatim>\<open>'train'\<close> (through \<^verbatim>\<open>run\<close> or
  through \<^verbatim>\<open>test\<close>, whether it returns or raises) leaves the parameters, their gradients
  and the optimizer as they were. In training, after each batch the parameters are those
  before the batch or the result of the optimizer step on them, and after a training
  pass, after \<^verbatim>\<open>train\<close> and after the whole epoch loop they are reached from those at
  the start by optimizer steps only. The generator leaves them as they are. What follows
  the epoch loop does change them without a training pass: they become those that the
  restoring of the best checkpoint returns.
\<close>

theorem evaluation_leaves_parameters:
  assumes "mode \<noteq> ''train''"
  shows "params (snd (run ext mode loader opt lp m)) = params m \<and>
         grads (snd (run ext mode loader opt lp m)) = grads m \<and>
         optim (snd (run ext mode loader opt lp m)) = optim m \<and>
         params (snd (test ext mode epoch loader lp m)) = params m \<and>
         grads (snd (test ext mode epoch loader lp m)) = grads m \<and>
         optim (snd (test ext mode epoch loader lp m)) = optim m \<and>
         params (mach (snd (run_batch ext ''train'' opt lp b ls))) \<in>
           insert (params (mach ls))
             (range (\<lambda>g. snd (optimizer_step ext (optim (mach ls)) (params (mach ls)) g))) \<and>
         reached ext (params m) (params (snd (run ext ''train'' loader opt lp m))) \<and>
         reached ext (params m) (params (snd (train ext epoch' loader lp m))) \<and>
         reached ext (params m)
           (params (snd (snd (train_epochs (epoch_body ext train_loader val_loader test_loader lp)
                                pat eps m)))) \<and>
         params (snd (generations ext loader post m)) = params m \<and>
         params (snd (after_training ext train_loader test_loader lp m)) =
           fst (restore_best ext (params m) (optim m) (world m))"
proof -
  obtain r ls1 where step: "run_batch ext ''train'' opt lp b ls = (r, ls1)"
    by (cases "run_batch ext ''train'' opt lp b ls")
  have one: "params (mach ls1) \<in>
           insert (params (mach ls))
             (range (\<lambda>g. snd (optimizer_step ext (optim (mach ls)) (params (mach ls)) g)))"
  proof (cases r)
    case None
    with step run_batch_train_params [of ext opt lp b ls ls1] show ?thesis by auto
  next
    case (Some e)
    with step run_batch_train_failed [of ext opt lp b ls e ls1] show ?thesis by simp
  qed
  have start: "reached ext (params m) (params m)" by (rule reached_start)
  have loop: "reached ext (params m)
           (params (snd (snd (train_epochs (epoch_body ext train_loader val_loader test_loader lp)
                                pat eps m))))"
    unfolding train_epochs_def by (rule epoch_loop_reached [OF start])
  show ?thesis
    using run_frozen [OF assms, of ext loader opt lp m] test_frozen [OF assms, of ext epoch loader lp m]
      step one run_reached [OF start, of "''train''" loader opt lp]
      train_reached [OF start, of epoch' loader lp] loop
      generations_params [of ext loader post m]
      after_training_params [of ext train_loader test_loader lp m]
    by simp
qed

text \<open>
  A posterior pass over two batches leaves the parameter at 5; a training pass over the
  same batches moves it to 3.
\<close>

theorem evaluation_leaves_parameters_witness:
  "''post'' \<noteq> ''train'' \<and>
   params (snd (run demo_ext ''post'' [demo_batch, demo_batch] False None demo_machine)) = 5 \<and>
   params (snd (test demo_ext ''post'' None [demo_batch, demo_batch] None demo_machine)) = 5 \<and>
   params (snd (run demo_ext ''train'' [demo_batch, demo_batch] True None demo_machine)) = 3"
proof -
  have ne: "''post'' \<noteq> ''train''" by simp
  have tr: "params (snd (run demo_ext ''train'' [demo_batch, demo_batch] True None demo_machine)) = 3"
    by (simp add: run_def run_batch_def forward_batch_def split_last_def kl_terms_def
        initial_loop_state_def demo_ext_def demo_machine_def demo_args_def demo_batch_def
        train_step_def Let_def chunk_def cat2_def tensor_of_lists_def)
  show ?thesis
    using evaluation_leaves_parameters [OF ne, of demo_ext "[demo_batch, demo_batch]" False None
            demo_machine None] ne tr
    by (simp add: demo_machine_def)
qed

lemma demo_restoring_reached:
  "reached demo_ext_restoring p q \<Longrightarrow> p \<le> q"
  by (induction rule: reached.induct) (simp_all add: demo_ext_restoring_def demo_ext_def)

text \<open>
  The clause of the claim as it is stated, that the parameters are mutated only by the
  optimizer step inside training passes, fails after the epoch loop: with a best
  checkpoint that holds the parameter 0, the steps after the loop, which run a posterior
  pass and the generator and no training pass, take the parameter from 5 to 0, which no
  sequence of optimizer steps reaches from 5.
\<close>

theorem parameters_replaced_by_restore_counterexample:
  "params demo_machine = 5 \<and>
   params (snd (after_training demo_ext_restoring [demo_batch] [demo_batch] None demo_machine)) = 0 \<and>
   \<not> reached demo_ext_restoring (params demo_machine) 0"
proof -
  have a: "params demo_machine = 5" by (simp add: demo_machine_def)
  have b: "params (snd (after_training demo_ext_restoring [demo_batch] [demo_batch] None demo_machine)) = 0"
    by (simp add: after_training_params demo_ext_restoring_def demo_ext_def)
  have c: "\<not> reached demo_ext_restoring (params demo_machine) 0"
    using demo_restoring_reached [of 5 0] a by auto
  from a b c show ?thesis by blast
qed

section \<open>The history of a pass\<close>

lemma run_batch_appends:
  assumes "run_batch ext mode opt lp b ls = (None, ls1)"
  shows "\<exists>out w. forward_batch ext (args (mach ls)) lp (params (mach ls)) b (world (mach ls)) = (Inr out, w) \<and>
           hist ls1 = append_history out (hist ls)"
  using assms
  by (auto simp: run_batch_def Let_def split: prod.splits sum.splits if_splits)

lemma run_loop_history:
  "run_loop ext mode opt lp bs ls = (None, ls') \<Longrightarrow>
   hist ls' = foldl (\<lambda>h out. append_history out h) (hist ls) (batch_outputs ext mode opt lp bs ls) \<and>
   length (batch_outputs ext mode opt lp bs ls) = length bs"
proof (induction bs arbitrary: ls)
  case Nil
  then show ?case by simp
next
  case (Cons b bs)
  obtain r ls1 where step: "run_batch ext mode opt lp b ls = (r, ls1)"
    by (cases "run_batch ext mode opt lp b ls")
  with Cons.prems have r: "r = None" and rest: "run_loop ext mode opt lp bs ls1 = (None, ls')"
    by (auto split: option.splits)
  from run_batch_appends [OF step [unfolded r]] obtain out w where
    fw: "forward_batch ext (args (mach ls)) lp (params (mach ls)) b (world (mach ls)) = (Inr out, w)"
    and h: "hist ls1 = append_history out (hist ls)" by blast
  from Cons.IH [OF rest] show ?case
    using step r fw h by simp
qed

lemma foldl_append_history:
  "h_mse (foldl (\<lambda>h out. append_history out h) h outs) = h_mse h @ map b_mse outs \<and>
   h_nll (foldl (\<lambda>h out. append_history out h) h outs) = h_nll h @ map b_nll outs \<and>
   h_kl (foldl (\<lambda>h out. append_history out h) h outs) = h_kl h @ map b_kl outs \<and>
   h_loss (foldl (\<lambda>h out. append_history out h) h outs) = h_loss h @ map b_loss outs \<and>
   h_KLb_train (foldl (\<lambda>h out. append_history out h) h outs) =
     h_KLb_train h @ map (\<lambda>out. sum_list (b_KLb_blocks out)) outs \<and>
   h_KLb_blocks (foldl (\<lambda>h out. append_history out h) h outs) =
     h_KLb_blocks h @ map b_KLb_blocks outs"
  by (induction outs arbitrary: h) (simp_all add: append_history_def)

lemma batch_outputs_from_batches:
  "k < length (batch_outputs ext mode opt lp bs ls) \<Longrightarrow>
   \<exists>p w w'. forward_batch ext (args (mach ls)) lp p (bs ! k) w =
               (Inr (batch_outputs ext mode opt lp bs ls ! k), w')"
proof (induction bs arbitrary: ls k)
  case Nil
  then show ?case by simp
next
  case (Cons b bs)
  obtain r ls1 where step: "run_batch ext mode opt lp b ls = (r, ls1)"
    by (cases "run_batch ext mode opt lp b ls")
  have a: "args (mach ls1) = args (mach ls)"
    using run_batch_args [of ext mode opt lp b ls] step by simp
  obtain fr w where fw: "forward_batch ext (args (mach ls)) lp (params (mach ls)) b (world (mach ls)) = (fr, w)"
    by (cases "forward_batch ext (args (mach ls)) lp (params (mach ls)) b (world (mach ls))")
  from Cons.prems step fw obtain out where r: "r = None" and fr: "fr = Inr out"
    by (cases r; cases fr) auto
  have outs: "batch_outputs ext mode opt lp (b # bs) ls = out # batch_outputs ext mode opt lp bs ls1"
    using step fw r fr by simp
  show ?case
  proof (cases k)
    case 0
    with outs fw fr show ?thesis by auto
  next
    case (Suc j)
    with Cons.prems outs have "j < length (batch_outputs ext mode opt lp bs ls1)" by simp
    from Cons.IH [OF this] a Suc outs show ?thesis by simp
  qed
qed

lemma tensor_add_same_shape:
  assumes "rows2 a = rows2 b" and "cols2 a = cols2 b"
  shows "\<exists>r. tensor_add a b = Inr r \<and> rows2 r = rows2 a \<and> cols2 r = cols2 a \<and>
             (\<forall>i < rows2 a. \<forall>j < cols2 a. at2 r i j = at2 a i j + at2 b i j)"
  using assms
  by (simp add: tensor_add_def broadcastable_def broadcast_size_def broadcast_index_def)

lemma run_batch_completes:
  assumes "mode = ''train'' \<longrightarrow> opt"
      and "forward_batch ext (args (mach ls)) lp
             (params (mach ls)) b (world (mach ls)) = (Inr out, w')"
      and "mode = ''post'' \<longrightarrow>
             rows2 (aggr_posterior ls) = dim1 (b_edges out) \<and>
             cols2 (aggr_posterior ls) = dim2 (b_edges out)"
  shows "fst (run_batch ext mode opt lp b ls) = None \<and>
         (mode = ''post'' \<longrightarrow>
            rows2 (aggr_posterior (snd (run_batch ext mode opt lp b ls))) = rows2 (aggr_posterior ls) \<and>
            cols2 (aggr_posterior (snd (run_batch ext mode opt lp b ls))) = cols2 (aggr_posterior ls))"
proof (cases "mode = ''post''")
  case True
  with assms(3) have sh: "rows2 (aggr_posterior ls) = rows2 (sum_dim0 (b_edges out))"
    "cols2 (aggr_posterior ls) = cols2 (sum_dim0 (b_edges out))"
    by (simp_all add: sum_dim0_def)
  from tensor_add_same_shape [OF sh] obtain r where
    r: "tensor_add (aggr_posterior ls) (sum_dim0 (b_edges out)) = Inr r"
    and s: "rows2 r = rows2 (aggr_posterior ls)" "cols2 r = cols2 (aggr_posterior ls)" by blast
  from True assms(2) r s show ?thesis
    by (simp add: run_batch_def Let_def)
next
  case False
  with assms(1,2) show ?thesis
    by (simp add: run_batch_def Let_def)
qed

lemma run_loop_completes:
  assumes "mode = ''train'' \<longrightarrow> opt"
      and "\<forall>p b w. \<exists>out w'. forward_batch ext (args (mach ls)) lp p b w = (Inr out, w')"
      and "mode = ''post'' \<longrightarrow>
             rows2 (aggr_posterior ls) = P \<and> cols2 (aggr_posterior ls) = T \<and>
             (\<forall>p b w out w'. forward_batch ext (args (mach ls)) lp p b w = (Inr out, w') \<longrightarrow>
                dim1 (b_edges out) = P \<and> dim2 (b_edges out) = T)"
  shows "fst (run_loop ext mode opt lp bs ls) = None"
  using assms
proof (induction bs arbitrary: ls)
  case Nil
  show ?case by simp
next
  case (Cons b bs)
  obtain r ls1 where step: "run_batch ext mode opt lp b ls = (r, ls1)"
    by (cases "run_batch ext mode opt lp b ls")
  have a: "args (mach ls1) = args (mach ls)"
    using run_batch_args [of ext mode opt lp b ls] step by simp
  from Cons.prems(2) obtain out w' where
    fw: "forward_batch ext (args (mach ls)) lp (params (mach ls)) b (world (mach ls)) = (Inr out, w')"
    by blast
  have sh: "mode = ''post'' \<longrightarrow>
             rows2 (aggr_posterior ls) = dim1 (b_edges out) \<and>
             cols2 (aggr_posterior ls) = dim2 (b_edges out)"
    using Cons.prems(3) fw by metis
  from run_batch_completes [OF Cons.prems(1) fw sh] step
  have r: "r = None"
    and keep: "mode = ''post'' \<longrightarrow>
                 rows2 (aggr_posterior ls1) = rows2 (aggr_posterior ls) \<and>
                 cols2 (aggr_posterior ls1) = cols2 (aggr_posterior ls)"
    by auto
  have p3: "mode = ''post'' \<longrightarrow>
             rows2 (aggr_posterior ls1) = P \<and> cols2 (aggr_posterior ls1) = T \<and>
             (\<forall>p b w out w'. forward_batch ext (args (mach ls1)) lp p b w = (Inr out, w') \<longrightarrow>
                dim1 (b_edges out) = P \<and> dim2 (b_edges out) = T)"
    using Cons.prems(3) keep a by simp
  have p2: "\<forall>p b w. \<exists>out w'. forward_batch ext (args (mach ls1)) lp p b w = (Inr out, w')"
    using Cons.prems(2) a by simp
  have "fst (run_loop ext mode opt lp bs ls1) = None"
    using Cons.IH [OF Cons.prems(1) p2 p3] .
  with step r show ?case by simp
qed

text \<open>
  Claim C5. When a pass in any mode runs through its loader, the values it has produced
  are as many as the batches, the value at each position is computed from the batch at
  that position, and each of the six keys of the history holds its entry of those
  values, one per batch in that order; so each sequence is as long as the loader. In
  every mode but \<^verbatim>\<open>'post'\<close> this history is what \<^verbatim>\<open>run\<close> returns. A pass does run
  through when the objective can be computed for every batch (and, in training, an
  optimizer is given; and, in mode \<^verbatim>\<open>'post'\<close>, the edge tensor of every batch has one row
  for each pair and one column for each edge type, so that it can be added to the
  accumulator).
\<close>

theorem one_value_per_batch:
  "(run_loop ext mode opt lp batches (initial_loop_state m) = (None, ls) \<longrightarrow>
      length (batch_outputs ext mode opt lp batches (initial_loop_state m)) = length batches \<and>
      (\<forall>k < length batches. \<exists>p w w'.
          forward_batch ext (args m) lp p (batches ! k) w =
            (Inr (batch_outputs ext mode opt lp batches (initial_loop_state m) ! k), w')) \<and>
      h_loss (hist ls) = map b_loss (batch_outputs ext mode opt lp batches (initial_loop_state m)) \<and>
      h_mse (hist ls) = map b_mse (batch_outputs ext mode opt lp batches (initial_loop_state m)) \<and>
      h_nll (hist ls) = map b_nll (batch_outputs ext mode opt lp batches (initial_loop_state m)) \<and>
      h_kl (hist ls) = map b_kl (batch_outputs ext mode opt lp batches (initial_loop_state m)) \<and>
      h_KLb_train (hist ls) =
        map (\<lambda>out. sum_list (b_KLb_blocks out))
          (batch_outputs ext mode opt lp batches (initial_loop_state m)) \<and>
      h_KLb_blocks (hist ls) =
        map b_KLb_blocks (batch_outputs ext mode opt lp batches (initial_loop_state m)) \<and>
      length (h_loss (hist ls)) = length batches \<and> length (h_mse (hist ls)) = length batches \<and>
      length (h_nll (hist ls)) = length batches \<and> length (h_kl (hist ls)) = length batches \<and>
      length (h_KLb_train (hist ls)) = length batches \<and>
      length (h_KLb_blocks (hist ls)) = length batches \<and>
      fst (run ext mode batches opt lp m) =
        (if mode = ''post''
         then Inr (None, Some (tensor_div (aggr_posterior ls) (n_samples ls)))
         else Inr (Some (hist ls), None))) \<and>
   ((mode = ''train'' \<longrightarrow> opt) \<and>
    (\<forall>p b w. \<exists>out w'. forward_batch ext (args m) lp p b w = (Inr out, w')) \<and>
    (mode = ''post'' \<longrightarrow>
       (\<forall>p b w out w'. forward_batch ext (args m) lp p b w = (Inr out, w') \<longrightarrow>
          dim1 (b_edges out) = num_pairs (args m) \<and> dim2 (b_edges out) = edge_types (args m))) \<longrightarrow>
      fst (run_loop ext mode opt lp batches (initial_loop_state m)) = None)"
proof (intro conjI impI)
  assume fin: "run_loop ext mode opt lp batches (initial_loop_state m) = (None, ls)"
  let ?outs = "batch_outputs ext mode opt lp batches (initial_loop_state m)"
  note h = run_loop_history [OF fin]
  have e: "hist (initial_loop_state m) = empty_history" "args (mach (initial_loop_state m)) = args m"
    by (simp_all add: initial_loop_state_def)
  show len: "length ?outs = length batches" using h by simp
  show "\<forall>k < length batches. \<exists>p w w'.
          forward_batch ext (args m) lp p (batches ! k) w = (Inr (?outs ! k), w')"
    using batch_outputs_from_batches [of _ ext mode opt lp batches "initial_loop_state m"] len e
    by simp
  show l: "h_loss (hist ls) = map b_loss ?outs"
    using h foldl_append_history [of empty_history ?outs] e by (simp add: empty_history_def)
  show ms: "h_mse (hist ls) = map b_mse ?outs"
    using h foldl_append_history [of empty_history ?outs] e by (simp add: empty_history_def)
  show n: "h_nll (hist ls) = map b_nll ?outs"
    using h foldl_append_history [of empty_history ?outs] e by (simp add: empty_history_def)
  show k: "h_kl (hist ls) = map b_kl ?outs"
    using h foldl_append_history [of empty_history ?outs] e by (simp add: empty_history_def)
  show t: "h_KLb_train (hist ls) = map (\<lambda>out. sum_list (b_KLb_blocks out)) ?outs"
    using h foldl_append_history [of empty_history ?outs] e by (simp add: empty_history_def)
  show bl: "h_KLb_blocks (hist ls) = map b_KLb_blocks ?outs"
    using h foldl_append_history [of empty_history ?outs] e by (simp add: empty_history_def)
  show "length (h_loss (hist ls)) = length batches" using l len by simp
  show "length (h_mse (hist ls)) = length batches" using ms len by simp
  show "length (h_nll (hist ls)) = length batches" using n len by simp
  show "length (h_kl (hist ls)) = length batches" using k len by simp
  show "length (h_KLb_train (hist ls)) = length batches" using t len by simp
  show "length (h_KLb_blocks (hist ls)) = length batches" using bl len by simp
  show "fst (run ext mode batches opt lp m) =
        (if mode = ''post''
         then Inr (None, Some (tensor_div (aggr_posterior ls) (n_samples ls)))
         else Inr (Some (hist ls), None))"
    using fin by (simp add: run_def)
next
  assume c: "(mode = ''train'' \<longrightarrow> opt) \<and>
    (\<forall>p b w. \<exists>out w'. forward_batch ext (args m) lp p b w = (Inr out, w')) \<and>
    (mode = ''post'' \<longrightarrow>
       (\<forall>p b w out w'. forward_batch ext (args m) lp p b w = (Inr out, w') \<longrightarrow>
          dim1 (b_edges out) = num_pairs (args m) \<and> dim2 (b_edges out) = edge_types (args m)))"
  let ?ls = "initial_loop_state m"
  have e: "args (mach ?ls) = args m" "rows2 (aggr_posterior ?ls) = num_pairs (args m)"
    "cols2 (aggr_posterior ?ls) = edge_types (args m)"
    by (simp_all add: initial_loop_state_def zeros_def)
  have c1: "mode = ''train'' \<longrightarrow> opt" using c by blast
  have c2: "\<forall>p b w. \<exists>out w'. forward_batch ext (args (mach ?ls)) lp p b w = (Inr out, w')"
    using c e(1) by simp
  have c3: "mode = ''post'' \<longrightarrow>
             rows2 (aggr_posterior ?ls) = num_pairs (args m) \<and>
             cols2 (aggr_posterior ?ls) = edge_types (args m) \<and>
             (\<forall>p b w out w'. forward_batch ext (args (mach ?ls)) lp p b w = (Inr out, w') \<longrightarrow>
                dim1 (b_edges out) = num_pairs (args m) \<and> dim2 (b_edges out) = edge_types (args m))"
    using c e by simp
  show "fst (run_loop ext mode opt lp batches (initial_loop_state m)) = None"
    using run_loop_completes [OF c1 c2 c3] .
qed

text \<open>
  A validation pass over two batches runs through and logs the loss 4 for each; with an
  encoder that answers every batch with the same well-shaped logits, the objective can
  always be computed, the edge tensors fit the accumulator, and a posterior pass runs
  through.
\<close>

theorem one_value_per_batch_witness:
  "fst (run_loop demo_ext ''val'' False None [demo_batch, demo_batch]
          (initial_loop_state demo_machine)) = None \<and>
   h_loss (hist (snd (run_loop demo_ext ''val'' False None [demo_batch, demo_batch]
                        (initial_loop_state demo_machine)))) = [4, 4] \<and>
   length (h_KLb_blocks (hist (snd (run_loop demo_ext ''val'' False None [demo_batch, demo_batch]
                        (initial_loop_state demo_machine))))) = length [demo_batch, demo_batch] \<and>
   (\<forall>p b w. \<exists>out w'.
      forward_batch (demo_ext\<lparr>encoder := (\<lambda>p b w. (demo_batch, w))\<rparr>) (args demo_machine) None p b w
        = (Inr out, w')) \<and>
   fst (run_loop (demo_ext\<lparr>encoder := (\<lambda>p b w. (demo_batch, w))\<rparr>) ''post'' False None
          [demo_batch\<lparr>dim0 := 0\<rparr>, demo_batch] (initial_loop_state demo_machine)) = None"
proof -
  let ?rl = "run_loop demo_ext ''val'' False None [demo_batch, demo_batch]
               (initial_loop_state demo_machine)"
  let ?ext = "demo_ext\<lparr>encoder := (\<lambda>p b w. (demo_batch, w))\<rparr>"
  have f: "fst ?rl = None"
    by (simp add: run_batch_def forward_batch_def split_last_def kl_terms_def
        initial_loop_state_def demo_ext_def demo_machine_def demo_args_def demo_batch_def Let_def
        chunk_def cat2_def tensor_of_lists_def)
  then have eq: "?rl = (None, snd ?rl)" by (metis prod.collapse)
  have l: "h_loss (hist (snd ?rl)) = [4, 4]"
    by (simp add: run_batch_def forward_batch_def split_last_def kl_terms_def
        initial_loop_state_def demo_ext_def demo_machine_def demo_args_def demo_batch_def Let_def
        append_history_def empty_history_def optimized_loss_def select_loss_def scale_kl_def
        np_isclose_def chunk_def cat2_def tensor_of_lists_def)
  have c: "\<forall>p b w. \<exists>out w'. forward_batch ?ext (args demo_machine) None p b w = (Inr out, w')"
    by (simp add: forward_batch_def split_last_def kl_terms_def demo_ext_def demo_machine_def
        demo_args_def demo_batch_def Let_def chunk_def cat2_def tensor_of_lists_def)
  have d: "\<forall>p b w out w'. forward_batch ?ext (args demo_machine) None p b w = (Inr out, w') \<longrightarrow>
             dim1 (b_edges out) = num_pairs (args demo_machine) \<and>
             dim2 (b_edges out) = edge_types (args demo_machine)"
    by (auto simp: forward_batch_def split_last_def kl_terms_def demo_ext_def demo_machine_def
        demo_args_def demo_batch_def Let_def chunk_def cat2_def tensor_of_lists_def num_pairs_def)
  have p: "fst (run_loop ?ext ''post'' False None [demo_batch\<lparr>dim0 := 0\<rparr>, demo_batch]
                  (initial_loop_state demo_machine)) = None"
    using one_value_per_batch [of ?ext "''post''" False None "[demo_batch\<lparr>dim0 := 0\<rparr>, demo_batch]" demo_machine]
          c d
    by blast
  have v: "length (h_KLb_blocks (hist (snd ?rl))) = length [demo_batch, demo_batch]"
    using one_value_per_batch [of demo_ext "''val''" False None "[demo_batch, demo_batch]"
            demo_machine "snd ?rl"] eq
    by blast
  from f l v c p show ?thesis by blast
qed

section \<open>A posterior pass over no batches\<close>

lemma run_post_empty:
  "run ext ''post'' [] opt lp m =
     (Inr (None, Some (replicate (num_pairs (args m)) (replicate (edge_types (args m)) NaN))), m)"
  by (simp add: run_def initial_loop_state_def tensor_div_def zeros_def div_count_def
      map_replicate_trivial)

lemma test_post_empty:
  "test ext ''post'' epoch [] lp m =
     (Inr (None, Some (replicate (num_pairs (args m)) (replicate (edge_types (args m)) NaN))),
      m\<lparr>world := set_training ext False (world m)\<rparr>)"
  by (simp add: test_def run_post_empty)

lemma concat_replicate_replicate: "concat (replicate n (replicate k x)) = replicate (n * k) x"
  by (induction n) (simp_all add: replicate_add)

lemma after_training_empty:
  "after_training ext [] tsl lp m =
     (case restore_best ext (params m) (optim m) (world m) of
        (p, opt, w) \<Rightarrow>
          generations ext tsl
            (replicate (num_pairs (args m)) (replicate (edge_types (args m)) NaN))
            (m\<lparr>params := p, optim := opt,
               world := write_posterior ext
                          (replicate (num_pairs (args m) * edge_types (args m)) NaN)
                          (set_training ext False w)\<rparr>))"
  by (simp add: after_training_def test_post_empty concat_replicate_replicate split: prod.splits)

text \<open>
  Claim C10. A posterior pass over a loader without batches does not raise: \<^verbatim>\<open>run\<close> and
  \<^verbatim>\<open>test\<close> return the zero accumulator divided by the sample count 0, a tensor whose
  entries are all NaN. After training, this tensor is written to the log file, as a
  list of NaN, and handed to the generator.
\<close>

theorem empty_posterior_pass_is_nan:
  "run ext ''post'' [] opt lp m =
     (Inr (None, Some (replicate (num_pairs (args m)) (replicate (edge_types (args m)) NaN))), m) \<and>
   test ext ''post'' epoch [] lp m =
     (Inr (None, Some (replicate (num_pairs (args m)) (replicate (edge_types (args m)) NaN))),
      m\<lparr>world := set_training ext False (world m)\<rparr>) \<and>
   after_training ext [] test_loader lp m =
     (case restore_best ext (params m) (optim m) (world m) of
        (p, opt', w) \<Rightarrow>
          generations ext test_loader
            (replicate (num_pairs (args m)) (replicate (edge_types (args m)) NaN))
            (m\<lparr>params := p, optim := opt',
               world := write_posterior ext
                          (replicate (num_pairs (args m) * edge_types (args m)) NaN)
                          (set_training ext False w)\<rparr>)) \<and>
   fst (run demo_ext ''post'' [] False None demo_machine) =
     Inr (None, Some [[NaN, NaN, NaN, NaN], [NaN, NaN, NaN, NaN]])"
proof -
  have "replicate (num_pairs (args demo_machine)) (replicate (edge_types (args demo_machine)) NaN)
          = [[NaN, NaN, NaN, NaN], [NaN, NaN, NaN, NaN :: fval]]"
    by (simp add: demo_machine_def demo_args_def num_pairs_def eval_nat_numeral)
  then show ?thesis
    by (simp add: run_post_empty test_post_empty after_training_empty)
qed

section \<open>The aggregated posterior\<close>

lemma run_batch_post:
  assumes "run_batch ext ''post'' opt lp b ls = (None, ls1)"
  shows "\<exists>out w. forward_batch ext (args (mach ls)) lp (params (mach ls)) b (world (mach ls)) = (Inr out, w) \<and>
           tensor_add (aggr_posterior ls) (sum_dim0 (b_edges out)) = Inr (aggr_posterior ls1) \<and>
           n_samples ls1 = n_samples ls + size0 ext b"
  using assms
  by (auto simp: run_batch_def Let_def split: prod.splits sum.splits if_splits)

lemma run_loop_post:
  "run_loop ext ''post'' opt lp bs ls = (None, ls') \<Longrightarrow>
   accumulate (aggr_posterior ls)
     (map (\<lambda>out. sum_dim0 (b_edges out)) (batch_outputs ext ''post'' opt lp bs ls))
     = Inr (aggr_posterior ls') \<and>
   n_samples ls' = n_samples ls + sum_list (map (size0 ext) bs)"
proof (induction bs arbitrary: ls)
  case Nil
  then show ?case by simp
next
  case (Cons b bs)
  obtain r ls1 where step: "run_batch ext ''post'' opt lp b ls = (r, ls1)"
    by (cases "run_batch ext ''post'' opt lp b ls")
  with Cons.prems have r: "r = None" and rest: "run_loop ext ''post'' opt lp bs ls1 = (None, ls')"
    by (auto split: option.splits)
  from run_batch_post [OF step [unfolded r]] obtain out w where
    fw: "forward_batch ext (args (mach ls)) lp (params (mach ls)) b (world (mach ls)) = (Inr out, w)"
    and ad: "tensor_add (aggr_posterior ls) (sum_dim0 (b_edges out)) = Inr (aggr_posterior ls1)"
    and n: "n_samples ls1 = n_samples ls + size0 ext b" by blast
  from Cons.IH [OF rest] show ?case
    using step r fw ad n by simp
qed

lemma accumulate_same_shape:
  assumes "\<forall>t \<in> set ts. rows2 t = rows2 acc \<and> cols2 t = cols2 acc"
  shows "\<exists>A. accumulate acc ts = Inr A \<and> rows2 A = rows2 acc \<and> cols2 A = cols2 acc \<and>
             (\<forall>i < rows2 acc. \<forall>j < cols2 acc.
                at2 A i j = at2 acc i j + sum_list (map (\<lambda>t. at2 t i j) ts))"
  using assms
proof (induction ts arbitrary: acc)
  case Nil
  then show ?case by simp
next
  case (Cons t ts)
  have sh: "rows2 acc = rows2 t" "cols2 acc = cols2 t" using Cons.prems by simp_all
  from tensor_add_same_shape [OF sh] obtain r where
    r: "tensor_add acc t = Inr r" and rr: "rows2 r = rows2 acc" and rc: "cols2 r = cols2 acc"
    and re: "\<forall>i < rows2 acc. \<forall>j < cols2 acc. at2 r i j = at2 acc i j + at2 t i j" by blast
  have "\<forall>t \<in> set ts. rows2 t = rows2 r \<and> cols2 t = cols2 r"
    using Cons.prems rr rc by simp
  from Cons.IH [OF this] obtain A where
    a: "accumulate r ts = Inr A" and ar: "rows2 A = rows2 r" and ac: "cols2 A = cols2 r"
    and ae: "\<forall>i < rows2 r. \<forall>j < cols2 r. at2 A i j = at2 r i j + sum_list (map (\<lambda>t. at2 t i j) ts)"
    by blast
  have "\<forall>i < rows2 acc. \<forall>j < cols2 acc.
          at2 A i j = at2 acc i j + sum_list (map (\<lambda>t. at2 t i j) (t # ts))"
  proof (intro allI impI)
    fix i j assume i: "i < rows2 acc" and j: "j < cols2 acc"
    have "at2 A i j = at2 r i j + sum_list (map (\<lambda>t. at2 t i j) ts)"
      using ae i j rr rc by simp
    moreover have "at2 r i j = at2 acc i j + at2 t i j" using re i j by simp
    ultimately show "at2 A i j = at2 acc i j + sum_list (map (\<lambda>t. at2 t i j) (t # ts))"
      by simp
  qed
  with r a ar ac rr rc show ?case by simp
qed

lemma block_within:
  assumes "f < length L"
  shows "sum_list (take f L) + L ! f \<le> sum_list (L :: nat list)"
proof -
  have "sum_list (take (Suc f) L) = sum_list (take f L) + L ! f"
    using assms by (simp add: take_Suc_conv_app_nth)
  moreover have "sum_list L = sum_list (take (Suc f) L) + sum_list (drop (Suc f) L)"
    by (metis append_take_drop_id sum_list_append)
  ultimately show ?thesis by simp
qed

lemma block_sum_add:
  "block_sum L (\<lambda>j. g j + h j) f = block_sum L g f + block_sum L h f"
  by (simp add: block_sum_def sum_list_addf)

lemma block_sum_cong:
  assumes "\<forall>j < sum_list L. g j = h j" and "f < length L"
  shows "block_sum L g f = block_sum L h f"
proof -
  have "map (\<lambda>j. g (sum_list (take f L) + j)) [0..<L ! f] =
        map (\<lambda>j. h (sum_list (take f L) + j)) [0..<L ! f]"
  proof (rule map_cong [OF refl])
    fix j assume "j \<in> set [0..<L ! f]"
    then have "sum_list (take f L) + j < sum_list L"
      using block_within [OF assms(2)] by simp
    with assms(1) show "g (sum_list (take f L) + j) = h (sum_list (take f L) + j)" by simp
  qed
  then show ?thesis by (simp only: block_sum_def)
qed

lemma block_sum_sum:
  "block_sum L (\<lambda>j. \<Sum>s<n. g s j) f = (\<Sum>s<n. block_sum L (g s) f)"
proof -
  have "block_sum L (\<lambda>j. \<Sum>s<n. g s j) f =
        (\<Sum>j<L ! f. \<Sum>s<n. g s (sum_list (take f L) + j))"
    by (simp add: block_sum_def interv_sum_list_conv_sum_set_nat atLeast0LessThan)
  also have "\<dots> = (\<Sum>s<n. \<Sum>j<L ! f. g s (sum_list (take f L) + j))"
    by (rule sum.swap)
  also have "\<dots> = (\<Sum>s<n. block_sum L (g s) f)"
    by (simp add: block_sum_def interv_sum_list_conv_sum_set_nat atLeast0LessThan)
  finally show ?thesis .
qed

lemma sum_dim0_blocks:
  assumes "edge_samples_sum_one L n e"
  shows "cols2 (sum_dim0 e) = sum_list L \<and>
         (\<forall>i < rows2 (sum_dim0 e). \<forall>f < length L. block_sum L (at2 (sum_dim0 e) i) f = real n)"
proof (intro conjI allI impI)
  show "cols2 (sum_dim0 e) = sum_list L"
    using assms by (simp add: edge_samples_sum_one_def sum_dim0_def)
next
  fix i f assume i: "i < rows2 (sum_dim0 e)" and f: "f < length L"
  have d: "dim0 e = n" using assms by (simp add: edge_samples_sum_one_def)
  have one: "block_sum L (at3 e s i) f = 1" if "s < n" for s
    using assms that i f by (simp add: edge_samples_sum_one_def sum_dim0_def list_all_iff)
  have "block_sum L (at2 (sum_dim0 e) i) f = (\<Sum>s<n. block_sum L (at3 e s i) f)"
    using block_sum_sum [where L = L and n = n and g = "\<lambda>s. at3 e s i" and f = f] d
    by (simp add: sum_dim0_def)
  also have "\<dots> = (\<Sum>s<n. 1)" using one by simp
  also have "\<dots> = real n" by simp
  finally show "block_sum L (at2 (sum_dim0 e) i) f = real n" .
qed

lemma tensor_add_blocks:
  assumes r: "tensor_add a b = Inr r"
      and ca: "cols2 a = sum_list L" and cb: "cols2 b = sum_list L"
      and ba: "\<forall>i < rows2 a. \<forall>f < length L. block_sum L (at2 a i) f = x"
      and bb: "\<forall>i < rows2 b. \<forall>f < length L. block_sum L (at2 b i) f = y"
  shows "cols2 r = sum_list L \<and>
         (\<forall>i < rows2 r. \<forall>f < length L. block_sum L (at2 r i) f = x + y)"
proof (intro conjI allI impI)
  from r have br: "broadcastable (rows2 a) (rows2 b)"
    by (simp add: tensor_add_def split: if_splits)
  from r have rr: "rows2 r = broadcast_size (rows2 a) (rows2 b)"
    and rc: "cols2 r = broadcast_size (cols2 a) (cols2 b)"
    and re: "at2 r = (\<lambda>i j. at2 a (broadcast_index (rows2 a) i) (broadcast_index (cols2 a) j)
                             + at2 b (broadcast_index (rows2 b) i) (broadcast_index (cols2 b) j))"
    by (auto simp: tensor_add_def split: if_splits)
  show "cols2 r = sum_list L" using rc ca cb by (simp add: broadcast_size_def)
  fix i f assume i: "i < rows2 r" and f: "f < length L"
  let ?ia = "broadcast_index (rows2 a) i" and ?ib = "broadcast_index (rows2 b) i"
  have ia: "?ia < rows2 a" using i rr br
    by (auto simp: broadcast_index_def broadcast_size_def broadcastable_def split: if_splits)
  have ib: "?ib < rows2 b" using i rr br
    by (auto simp: broadcast_index_def broadcast_size_def broadcastable_def split: if_splits)
  have "\<forall>j < sum_list L. at2 r i j = at2 a ?ia j + at2 b ?ib j"
    using re ca cb by (simp add: broadcast_index_def)
  from block_sum_cong [OF this f]
  have "block_sum L (at2 r i) f = block_sum L (\<lambda>j. at2 a ?ia j + at2 b ?ib j) f" .
  also have "\<dots> = block_sum L (at2 a ?ia) f + block_sum L (at2 b ?ib) f"
    by (rule block_sum_add)
  also have "\<dots> = x + y" using ba bb ia ib f by simp
  finally show "block_sum L (at2 r i) f = x + y" .
qed

lemma accumulate_blocks:
  assumes "accumulate acc ts = Inr A"
      and "cols2 acc = sum_list L"
      and "\<forall>i < rows2 acc. \<forall>f < length L. block_sum L (at2 acc i) f = x"
      and "length ns = length ts"
      and "\<forall>k < length ts. cols2 (ts ! k) = sum_list L \<and>
             (\<forall>i < rows2 (ts ! k). \<forall>f < length L. block_sum L (at2 (ts ! k) i) f = real (ns ! k))"
  shows "cols2 A = sum_list L \<and>
         (\<forall>i < rows2 A. \<forall>f < length L. block_sum L (at2 A i) f = x + real (sum_list ns))"
  using assms
proof (induction ts arbitrary: acc x ns)
  case Nil
  then show ?case by simp
next
  case (Cons t ts)
  from Cons.prems(4) obtain n ns' where ns: "ns = n # ns'" and len: "length ns' = length ts"
    by (cases ns) auto
  from Cons.prems(1) obtain r where r: "tensor_add acc t = Inr r" and a: "accumulate r ts = Inr A"
    by (auto split: sum.splits)
  have t0: "cols2 t = sum_list L"
    "\<forall>i < rows2 t. \<forall>f < length L. block_sum L (at2 t i) f = real n"
    using Cons.prems(5) [rule_format, of 0] ns by simp_all
  from tensor_add_blocks [OF r Cons.prems(2) t0(1) Cons.prems(3) t0(2)]
  have rc: "cols2 r = sum_list L"
    and rb: "\<forall>i < rows2 r. \<forall>f < length L. block_sum L (at2 r i) f = x + real n" by blast+
  have rest: "\<forall>k < length ts. cols2 (ts ! k) = sum_list L \<and>
             (\<forall>i < rows2 (ts ! k). \<forall>f < length L. block_sum L (at2 (ts ! k) i) f = real (ns' ! k))"
  proof (intro allI impI)
    fix k assume "k < length ts"
    then have "Suc k < length (t # ts)" by simp
    from Cons.prems(5) [rule_format, OF this] ns
    show "cols2 (ts ! k) = sum_list L \<and>
          (\<forall>i < rows2 (ts ! k). \<forall>f < length L. block_sum L (at2 (ts ! k) i) f = real (ns' ! k))"
      by simp
  qed
  from Cons.IH [OF a rc rb len rest] ns show ?case by (simp add: add.assoc)
qed

lemma tensor_div_slice:
  assumes i: "i < rows2 A" and f: "f < length L" and c: "cols2 A = sum_list L"
      and S: "1 \<le> S" and b: "block_sum L (at2 A i) f = real S"
  shows "\<exists>xs. factor_slice L f (tensor_div A S ! i) = map Fin xs \<and> length xs = L ! f \<and>
              sum_list xs = 1"
proof -
  let ?off = "sum_list (take f L)"
  let ?xs = "map (\<lambda>j. at2 A i (?off + j) / real S) [0..<L ! f]"
  have w: "?off + L ! f \<le> cols2 A" using block_within [OF f] c by simp
  have row: "tensor_div A S ! i = map (\<lambda>j. Fin (at2 A i j / real S)) [0..<cols2 A]"
    using i S by (simp add: tensor_div_def div_count_def)
  have "drop ?off (tensor_div A S ! i) = map (\<lambda>j. Fin (at2 A i j / real S)) [?off..<cols2 A]"
    using row by (simp add: drop_map)
  then have "take (L ! f) (drop ?off (tensor_div A S ! i)) =
             map (\<lambda>j. Fin (at2 A i j / real S)) [?off..<?off + L ! f]"
    using w by (simp add: take_map min_def)
  also have "\<dots> = map (\<lambda>j. Fin (at2 A i (?off + j) / real S)) [0..<L ! f]"
    by (rule nth_equalityI) simp_all
  finally have sl: "factor_slice L f (tensor_div A S ! i) = map Fin ?xs"
    by (simp add: factor_slice_def comp_def)
  have "sum_list ?xs = sum_list (map (\<lambda>j. at2 A i (?off + j)) [0..<L ! f]) / real S"
    by (simp add: interv_sum_list_conv_sum_set_nat sum_divide_distrib)
  also have "\<dots> = real S / real S" using b by (simp add: block_sum_def)
  also have "\<dots> = 1" using S by simp
  finally have "sum_list ?xs = 1" .
  with sl show ?thesis by (intro exI [of _ ?xs]) simp
qed

text \<open>
  Claim C3, as amended. A posterior pass that returns has run through its loader, and
  what it returns is the accumulator divided by the number \<open>S\<close> of samples of the loader,
  where the accumulator starts as the zero tensor and has the edge tensor of each batch,
  summed over the batch axis, added to it in turn by the sum of line 195; when every
  edge tensor has the shape of the accumulator in its last two axes, this is, entry by
  entry, zero plus the sum of the entries of all samples of all batches, divided by
  \<open>S\<close>. When \<open>S\<close> is at least 1, the edge-type count is the sum of the partition, and
  each per-sample per-factor edge sample sums to 1, each factor's slice of every row of
  the result sums to 1; the rows are those of the pairs when the edge tensors have one
  row for each pair.
\<close>

theorem posterior_is_mean_of_samples:
  assumes "run ext ''post'' batches opt lp m = (Inr (None, Some post), m')"
  shows "length (batch_outputs ext ''post'' opt lp batches (initial_loop_state m)) = length batches \<and>
    (\<exists>A. accumulate (zeros (num_pairs (args m)) (edge_types (args m)))
            (map (\<lambda>out. sum_dim0 (b_edges out))
               (batch_outputs ext ''post'' opt lp batches (initial_loop_state m))) = Inr A \<and>
          post = tensor_div A (sum_list (map (size0 ext) batches))) \<and>
    ((\<forall>out \<in> set (batch_outputs ext ''post'' opt lp batches (initial_loop_state m)).
        dim1 (b_edges out) = num_pairs (args m) \<and> dim2 (b_edges out) = edge_types (args m)) \<longrightarrow>
     post = map (\<lambda>i. map (\<lambda>j.
              div_count (0 + sum_list (map (\<lambda>out. \<Sum>s<dim0 (b_edges out). at3 (b_edges out) s i j)
                                     (batch_outputs ext ''post'' opt lp batches (initial_loop_state m))))
                (sum_list (map (size0 ext) batches)))
              [0..<edge_types (args m)]) [0..<num_pairs (args m)]) \<and>
    (1 \<le> sum_list (map (size0 ext) batches) \<and>
     edge_types (args m) = sum_list (edge_types_list (args m)) \<and>
     (\<forall>k < length batches.
        edge_samples_sum_one (edge_types_list (args m)) (size0 ext (batches ! k))
          (b_edges (batch_outputs ext ''post'' opt lp batches (initial_loop_state m) ! k))) \<longrightarrow>
     (\<forall>i < length post. \<forall>f < length (edge_types_list (args m)).
        \<exists>xs. factor_slice (edge_types_list (args m)) f (post ! i) = map Fin xs \<and>
             length xs = edge_types_list (args m) ! f \<and> sum_list xs = 1) \<and>
     ((\<forall>out \<in> set (batch_outputs ext ''post'' opt lp batches (initial_loop_state m)).
         dim1 (b_edges out) = num_pairs (args m)) \<longrightarrow>
      length post = num_pairs (args m)))"
proof -
  let ?ls0 = "initial_loop_state m"
  let ?outs = "batch_outputs ext ''post'' opt lp batches ?ls0"
  let ?ts = "map (\<lambda>out. sum_dim0 (b_edges out)) ?outs"
  let ?S = "sum_list (map (size0 ext) batches)"
  let ?P = "num_pairs (args m)" and ?T = "edge_types (args m)"
  let ?L = "edge_types_list (args m)"
  obtain r ls where rl: "run_loop ext ''post'' opt lp batches ?ls0 = (r, ls)"
    by (cases "run_loop ext ''post'' opt lp batches ?ls0")
  with assms have r: "r = None" and post: "post = tensor_div (aggr_posterior ls) (n_samples ls)"
    by (auto simp: run_def split: option.splits)
  note fin = rl [unfolded r]
  have z: "aggr_posterior ?ls0 = zeros ?P ?T" "n_samples ?ls0 = 0"
    by (simp_all add: initial_loop_state_def)
  from run_loop_post [OF fin] z
  have acc: "accumulate (zeros ?P ?T) ?ts = Inr (aggr_posterior ls)"
    and n: "n_samples ls = ?S" by simp_all
  have len: "length ?outs = length batches" using run_loop_history [OF fin] by simp
  have pd: "post = tensor_div (aggr_posterior ls) ?S" using post n by simp
  have A: "\<exists>A. accumulate (zeros ?P ?T) ?ts = Inr A \<and> post = tensor_div A ?S"
    using acc pd by blast
  have same: "rows2 (aggr_posterior ls) = ?P \<and> cols2 (aggr_posterior ls) = ?T \<and>
         (\<forall>i < ?P. \<forall>j < ?T. at2 (aggr_posterior ls) i j =
             0 + sum_list (map (\<lambda>out. \<Sum>s<dim0 (b_edges out). at3 (b_edges out) s i j) ?outs))"
    if sh: "\<forall>out \<in> set ?outs. dim1 (b_edges out) = ?P \<and> dim2 (b_edges out) = ?T"
  proof -
    have "\<forall>t \<in> set ?ts. rows2 t = rows2 (zeros ?P ?T) \<and> cols2 t = cols2 (zeros ?P ?T)"
      using sh by (auto simp: sum_dim0_def zeros_def)
    from accumulate_same_shape [OF this] acc
    have 1: "rows2 (aggr_posterior ls) = rows2 (zeros ?P ?T)"
      and 2: "cols2 (aggr_posterior ls) = cols2 (zeros ?P ?T)"
      and 3: "\<forall>i < rows2 (zeros ?P ?T). \<forall>j < cols2 (zeros ?P ?T).
                at2 (aggr_posterior ls) i j =
                  at2 (zeros ?P ?T) i j + sum_list (map (\<lambda>t. at2 t i j) ?ts)"
      by auto
    have 4: "map (\<lambda>t. at2 t i j) ?ts =
             map (\<lambda>out. \<Sum>s<dim0 (b_edges out). at3 (b_edges out) s i j) ?outs" for i j
      by (simp add: sum_dim0_def comp_def)
    have 5: "\<forall>i < ?P. \<forall>j < ?T. at2 (aggr_posterior ls) i j =
             0 + sum_list (map (\<lambda>out. \<Sum>s<dim0 (b_edges out). at3 (b_edges out) s i j) ?outs)"
    proof (intro allI impI)
      fix i j assume "i < ?P" and "j < ?T"
      then have "i < rows2 (zeros ?P ?T)" "j < cols2 (zeros ?P ?T)" by (simp_all add: zeros_def)
      with 3 have "at2 (aggr_posterior ls) i j =
                  at2 (zeros ?P ?T) i j + sum_list (map (\<lambda>t. at2 t i j) ?ts)" by blast
      also have "at2 (zeros ?P ?T) i j = 0" by (simp add: zeros_def)
      finally show "at2 (aggr_posterior ls) i j =
             0 + sum_list (map (\<lambda>out. \<Sum>s<dim0 (b_edges out). at3 (b_edges out) s i j) ?outs)"
        by (simp only: 4)
    qed
    from 1 2 have "rows2 (aggr_posterior ls) = ?P" "cols2 (aggr_posterior ls) = ?T"
      by (simp_all add: zeros_def)
    with 5 show ?thesis by blast
  qed
  have C: "post = map (\<lambda>i. map (\<lambda>j.
              div_count (0 + sum_list (map (\<lambda>out. \<Sum>s<dim0 (b_edges out). at3 (b_edges out) s i j) ?outs))
                ?S) [0..<?T]) [0..<?P]"
    if sh: "\<forall>out \<in> set ?outs. dim1 (b_edges out) = ?P \<and> dim2 (b_edges out) = ?T"
  proof -
    note s = same [OF sh]
    have "tensor_div (aggr_posterior ls) ?S =
          map (\<lambda>i. map (\<lambda>j. div_count (at2 (aggr_posterior ls) i j) ?S) [0..<?T]) [0..<?P]"
      using s by (simp add: tensor_div_def)
    also have "\<dots> = map (\<lambda>i. map (\<lambda>j.
              div_count (0 + sum_list (map (\<lambda>out. \<Sum>s<dim0 (b_edges out). at3 (b_edges out) s i j) ?outs))
                ?S) [0..<?T]) [0..<?P]"
    proof (rule map_cong [OF refl], rule map_cong [OF refl])
      fix i j assume "i \<in> set [0..<?P]" and "j \<in> set [0..<?T]"
      then have "i < ?P" "j < ?T" by simp_all
      with s show "div_count (at2 (aggr_posterior ls) i j) ?S =
          div_count (0 + sum_list (map (\<lambda>out. \<Sum>s<dim0 (b_edges out). at3 (b_edges out) s i j) ?outs)) ?S"
        by simp
    qed
    finally show ?thesis using pd by simp
  qed
  have D: "(\<forall>i < length post. \<forall>f < length ?L.
        \<exists>xs. factor_slice ?L f (post ! i) = map Fin xs \<and> length xs = ?L ! f \<and> sum_list xs = 1) \<and>
     ((\<forall>out \<in> set ?outs. dim1 (b_edges out) = ?P) \<longrightarrow> length post = ?P)"
    if h: "1 \<le> ?S \<and> ?T = sum_list ?L \<and>
           (\<forall>k < length batches.
              edge_samples_sum_one ?L (size0 ext (batches ! k)) (b_edges (?outs ! k)))"
  proof (intro conjI allI impI)
    from h have S: "1 \<le> ?S" and T: "?T = sum_list ?L"
      and e: "\<forall>k < length batches.
              edge_samples_sum_one ?L (size0 ext (batches ! k)) (b_edges (?outs ! k))"
      by blast+
    have c0: "cols2 (zeros ?P ?T) = sum_list ?L" using T by (simp add: zeros_def)
    have b0: "\<forall>i < rows2 (zeros ?P ?T). \<forall>f < length ?L.
                block_sum ?L (at2 (zeros ?P ?T) i) f = 0"
      by (simp add: zeros_def block_sum_def)
    have l0: "length (map (size0 ext) batches) = length ?ts" using len by simp
    have k0: "\<forall>k < length ?ts. cols2 (?ts ! k) = sum_list ?L \<and>
             (\<forall>i < rows2 (?ts ! k). \<forall>f < length ?L.
                block_sum ?L (at2 (?ts ! k) i) f = real (map (size0 ext) batches ! k))"
    proof (intro allI impI)
      fix k assume k: "k < length ?ts"
      then have kb: "k < length batches" using len by simp
      from e kb have "edge_samples_sum_one ?L (size0 ext (batches ! k)) (b_edges (?outs ! k))"
        by blast
      from sum_dim0_blocks [OF this] k kb
      show "cols2 (?ts ! k) = sum_list ?L \<and>
             (\<forall>i < rows2 (?ts ! k). \<forall>f < length ?L.
                block_sum ?L (at2 (?ts ! k) i) f = real (map (size0 ext) batches ! k))"
        by simp
    qed
    from accumulate_blocks [OF acc c0 b0 l0 k0]
    have ca: "cols2 (aggr_posterior ls) = sum_list ?L"
      and ba: "\<forall>i < rows2 (aggr_posterior ls). \<forall>f < length ?L.
                 block_sum ?L (at2 (aggr_posterior ls) i) f = real ?S"
      by simp_all
    have lp: "length post = rows2 (aggr_posterior ls)" using pd by (simp add: tensor_div_def)
    {
      fix i f assume i: "i < length post" and f: "f < length ?L"
      from i lp have ir: "i < rows2 (aggr_posterior ls)" by simp
      from ba ir f have "block_sum ?L (at2 (aggr_posterior ls) i) f = real ?S" by blast
      from tensor_div_slice [OF ir f ca S this] pd
      show "\<exists>xs. factor_slice ?L f (post ! i) = map Fin xs \<and> length xs = ?L ! f \<and> sum_list xs = 1"
        by simp
    }
    {
      assume p: "\<forall>out \<in> set ?outs. dim1 (b_edges out) = ?P"
      have "\<forall>out \<in> set ?outs. dim1 (b_edges out) = ?P \<and> dim2 (b_edges out) = ?T"
      proof
        fix out assume "out \<in> set ?outs"
        then obtain k where k: "k < length ?outs" and o: "out = ?outs ! k"
          by (metis in_set_conv_nth)
        from e k len have "edge_samples_sum_one ?L (size0 ext (batches ! k)) (b_edges (?outs ! k))"
          by simp
        then have "dim2 (b_edges out) = ?T" using o T by (simp add: edge_samples_sum_one_def)
        with p \<open>out \<in> set ?outs\<close> show "dim1 (b_edges out) = ?P \<and> dim2 (b_edges out) = ?T"
          by blast
      qed
      from same [OF this] lp show "length post = ?P" by simp
    }
  qed
  from len A C D show ?thesis by blast
qed

text \<open>
  A posterior pass over two batches of two samples each, with the sampler that always
  picks the first category: \<open>S = 4\<close>, every entry of the result is 1 or 0, and the slice
  of the second factor in the first row is \<open>[1, 0]\<close>.
\<close>

lemma demo_post_run:
  "run demo_ext ''post'' [demo_batch, demo_batch] False None demo_machine =
     (Inr (None, Some [[Fin 1, Fin 0, Fin 1, Fin 0], [Fin 1, Fin 0, Fin 1, Fin 0]]),
      demo_machine\<lparr>world := 4\<rparr>)"
  by (simp add: run_def run_batch_def forward_batch_def split_last_def kl_terms_def
      initial_loop_state_def demo_ext_def demo_machine_def demo_args_def demo_batch_def Let_def
      chunk_def cat2_def tensor_of_lists_def tensor_add_def sum_dim0_def zeros_def
      broadcastable_def broadcast_size_def broadcast_index_def tensor_div_def div_count_def
      num_pairs_def append_history_def empty_history_def upt_conv_Cons lessThan_nat_numeral
      lessThan_Suc cong del: if_weak_cong)

lemma demo_post_edges:
  "list_all (\<lambda>k. edge_samples_sum_one [2, 2] (size0 demo_ext ([demo_batch, demo_batch] ! k))
      (b_edges (batch_outputs demo_ext ''post'' False None [demo_batch, demo_batch]
                  (initial_loop_state demo_machine) ! k))) [0..<2]"
  by (simp add: edge_samples_sum_one_def block_sum_def run_batch_def forward_batch_def
      split_last_def kl_terms_def initial_loop_state_def demo_ext_def demo_machine_def
      demo_args_def demo_batch_def Let_def chunk_def cat2_def tensor_of_lists_def tensor_add_def
      sum_dim0_def zeros_def broadcastable_def broadcast_size_def broadcast_index_def
      num_pairs_def append_history_def empty_history_def upt_conv_Cons
      optimized_loss_def select_loss_def scale_kl_def np_isclose_def cong del: if_weak_cong)

theorem posterior_is_mean_of_samples_witness:
  "run demo_ext ''post'' [demo_batch, demo_batch] False None demo_machine =
     (Inr (None, Some [[Fin 1, Fin 0, Fin 1, Fin 0], [Fin 1, Fin 0, Fin 1, Fin 0]]),
      demo_machine\<lparr>world := 4\<rparr>) \<and>
   sum_list (map (size0 demo_ext) [demo_batch, demo_batch]) = 4 \<and>
   edge_types (args demo_machine) = sum_list (edge_types_list (args demo_machine)) \<and>
   list_all (\<lambda>k. edge_samples_sum_one [2, 2] (size0 demo_ext ([demo_batch, demo_batch] ! k))
      (b_edges (batch_outputs demo_ext ''post'' False None [demo_batch, demo_batch]
                  (initial_loop_state demo_machine) ! k))) [0..<2] \<and>
   length (batch_outputs demo_ext ''post'' False None [demo_batch, demo_batch]
             (initial_loop_state demo_machine)) = 2 \<and>
   (\<exists>xs. factor_slice [2, 2] 1 [Fin 1, Fin 0, Fin 1, Fin 0] = map Fin xs \<and> length xs = 2 \<and>
         sum_list xs = 1)"
proof -
  have a: "args demo_machine = demo_args" by (simp add: demo_machine_def)
  have L: "edge_types_list (args demo_machine) = [2, 2]" by (simp add: a demo_args_def)
  have S: "sum_list (map (size0 demo_ext) [demo_batch, demo_batch]) = 4"
    by (simp add: demo_ext_def demo_batch_def tensor_of_lists_def)
  have T: "edge_types (args demo_machine) = sum_list (edge_types_list (args demo_machine))"
    by (simp add: a demo_args_def)
  have e: "\<forall>k < length [demo_batch, demo_batch].
        edge_samples_sum_one (edge_types_list (args demo_machine))
          (size0 demo_ext ([demo_batch, demo_batch] ! k))
          (b_edges (batch_outputs demo_ext ''post'' False None [demo_batch, demo_batch]
                      (initial_loop_state demo_machine) ! k))"
    using demo_post_edges by (simp add: L list_all_iff)
  have h: "1 \<le> sum_list (map (size0 demo_ext) [demo_batch, demo_batch]) \<and>
     edge_types (args demo_machine) = sum_list (edge_types_list (args demo_machine)) \<and>
     (\<forall>k < length [demo_batch, demo_batch].
        edge_samples_sum_one (edge_types_list (args demo_machine))
          (size0 demo_ext ([demo_batch, demo_batch] ! k))
          (b_edges (batch_outputs demo_ext ''post'' False None [demo_batch, demo_batch]
                      (initial_loop_state demo_machine) ! k)))"
    using S T e by simp
  note t = posterior_is_mean_of_samples [OF demo_post_run]
  from t have len: "length (batch_outputs demo_ext ''post'' False None [demo_batch, demo_batch]
             (initial_loop_state demo_machine)) = 2"
    by simp
  note q = t [THEN conjunct2, THEN conjunct2, THEN conjunct2, THEN mp, OF h, THEN conjunct1]
  from q [rule_format, of 0 1]
  have "\<exists>xs. factor_slice (edge_types_list (args demo_machine)) 1
               ([[Fin 1, Fin 0, Fin 1, Fin 0], [Fin 1, Fin 0, Fin 1, Fin 0]] ! 0) = map Fin xs \<and>
             length xs = edge_types_list (args demo_machine) ! 1 \<and> sum_list xs = 1"
    by (simp add: L)
  then have ex: "\<exists>xs. factor_slice [2, 2] 1 [Fin 1, Fin 0, Fin 1, Fin 0] = map Fin xs \<and>
      length xs = 2 \<and> sum_list xs = 1"
    by (simp add: L)
  from demo_post_run S T demo_post_edges len ex show ?thesis by blast
qed

text \<open>
  The claim as it is stated, for every loader, fails at the loader without batches: no
  sample breaks the premise, \<open>S = 0\<close>, and the slices of the result consist of NaN, which
  sum to nothing.
\<close>

theorem posterior_without_samples_counterexample:
  "run demo_ext ''post'' [] False None demo_machine =
     (Inr (None, Some [[NaN, NaN, NaN, NaN], [NaN, NaN, NaN, NaN]]), demo_machine) \<and>
   sum_list (map (size0 demo_ext) []) = 0 \<and>
   edge_types (args demo_machine) = sum_list (edge_types_list (args demo_machine)) \<and>
   factor_slice (edge_types_list (args demo_machine)) 0
      ([[NaN, NaN, NaN, NaN], [NaN, NaN, NaN, NaN]] ! 0) = [NaN, NaN] \<and>
   \<not> (\<exists>xs. factor_slice (edge_types_list (args demo_machine)) 0
               ([[NaN, NaN, NaN, NaN], [NaN, NaN, NaN, NaN]] ! 0) = map Fin xs \<and>
             sum_list xs = 1)"
proof -
  have a: "args demo_machine = demo_args" by (simp add: demo_machine_def)
  have c1: "run demo_ext ''post'' [] False None demo_machine =
     (Inr (None, Some [[NaN, NaN, NaN, NaN], [NaN, NaN, NaN, NaN]]), demo_machine)"
    by (simp add: run_def initial_loop_state_def zeros_def tensor_div_def div_count_def
        demo_machine_def demo_args_def num_pairs_def upt_conv_Cons)
  have c2: "sum_list (map (size0 demo_ext) []) = 0" by simp
  have c3: "edge_types (args demo_machine) = sum_list (edge_types_list (args demo_machine))"
    by (simp add: a demo_args_def)
  have s: "factor_slice (edge_types_list (args demo_machine)) 0
               ([[NaN, NaN, NaN, NaN], [NaN, NaN, NaN, NaN]] ! 0) = [NaN, NaN]"
    by (simp add: factor_slice_def demo_machine_def demo_args_def)
  have c5: "\<not> (\<exists>xs. factor_slice (edge_types_list (args demo_machine)) 0
               ([[NaN, NaN, NaN, NaN], [NaN, NaN, NaN, NaN]] ! 0) = map Fin xs \<and>
             sum_list xs = 1)"
    unfolding s by auto
  from c1 c2 c3 s c5 show ?thesis by blast
qed

text \<open>
  Why the edge-type count has to be the sum of the partition, as \<^verbatim>\<open>main\<close> sets it at
  startup: with a count of 0 and the partition \<open>[1]\<close>, the accumulator has no columns,
  the sum of line 195 broadcasts the one column of the edge tensor away, and the rows of
  the result are empty although every edge sample sums to 1 and there is a sample.
\<close>

lemma posterior_without_columns:
  "run demo_ext ''post'' [tensor_of_lists 2 1 [[[5], [6]]]] False None
      (demo_machine\<lparr>args := demo_args\<lparr>edge_types := 0, edge_types_list := [1]\<rparr>\<rparr>) =
     (Inr (None, Some [[], []]),
      demo_machine\<lparr>args := demo_args\<lparr>edge_types := 0, edge_types_list := [1]\<rparr>, world := 1\<rparr>) \<and>
   edge_samples_sum_one [1] 1
     (b_edges (batch_outputs demo_ext ''post'' False None [tensor_of_lists 2 1 [[[5], [6]]]]
        (initial_loop_state
           (demo_machine\<lparr>args := demo_args\<lparr>edge_types := 0, edge_types_list := [1]\<rparr>\<rparr>)) ! 0)) \<and>
   factor_slice [1] 0 ([[], []] ! 0) = ([] :: fval list)"
  by (simp add: edge_samples_sum_one_def block_sum_def run_def run_batch_def forward_batch_def
      split_last_def kl_terms_def initial_loop_state_def demo_ext_def demo_machine_def
      demo_args_def Let_def chunk_def cat2_def tensor_of_lists_def tensor_add_def
      sum_dim0_def zeros_def broadcastable_def broadcast_size_def broadcast_index_def
      tensor_div_def div_count_def factor_slice_def
      num_pairs_def append_history_def empty_history_def upt_conv_Cons
      optimized_loss_def select_loss_def scale_kl_def np_isclose_def cong del: if_weak_cong)

end
